theory Spec2Isabelle
  imports Complex_Main
begin

section \<open>Geometry primitives of the two-point perspective editor\<close>

text \<open>
  Source: \<^verbatim>\<open>src/deepseek4.py\<close>.  A \<^verbatim>\<open>QPoint\<close> holds two integer coordinates.  The
  arithmetic on coordinates is Python's, on unbounded integers, modelled as \<^typ>\<open>int\<close>.
  Python's \<^verbatim>\<open>int(x)\<close> on a float truncates toward zero.
\<close>

datatype QPoint = QPoint (qx: int) (qy: int)

datatype py_error = IndexError | ValueError | AttributeError | OverflowError | TypeError

definition py_int :: "real \<Rightarrow> int" where
  "py_int r = (if 0 \<le> r then \<lfloor>r\<rfloor> else \<lceil>r\<rceil>)"

text \<open>
  The constructor \<^verbatim>\<open>QPoint(x, y)\<close> stores C integers of 32 bits: called with a Python integer
  outside that range it raises \<^verbatim>\<open>OverflowError\<close>.  Every \<^verbatim>\<open>QPoint\<close> that the program holds
  therefore has coordinates in the range.
\<close>

definition in_int32 :: "int \<Rightarrow> bool" where
  "in_int32 n = (- 2147483648 \<le> n \<and> n \<le> 2147483647)"

definition valid_QPoint :: "QPoint \<Rightarrow> bool" where
  "valid_QPoint p = (in_int32 (qx p) \<and> in_int32 (qy p))"

definition make_QPoint :: "int \<Rightarrow> int \<Rightarrow> py_error + QPoint" where
  "make_QPoint x y = (if in_int32 x \<and> in_int32 y then Inr (QPoint x y) else Inl OverflowError)"

subsection \<open>Floating-point numbers\<close>

text \<open>
  A Python \<^verbatim>\<open>float\<close> and a \<^verbatim>\<open>np.float64\<close> are IEEE doubles.  A double is kept as the
  real number it denotes, and every operation of the line-intersection and walk functions
  returns the exact result rounded to the nearest number with a significand of 53 bits, ties
  to the even significand.  The exponent is not bounded: overflow to infinity and subnormal
  numbers are not modelled; neither occurs on operands built from 32-bit coordinates.  The
  scale, distance and angle computations of the free drag, the wheel zoom and the sorting of
  points (further below) are not truncated to integers; there a floating-point value is
  kept as the exact real.
\<close>

definition round_half_even :: "real \<Rightarrow> int" where
  "round_half_even r =
     (let f = \<lfloor>r\<rfloor>; d = r - real_of_int f
      in if d < 1 / 2 then f else if 1 / 2 < d then f + 1 else if even f then f else f + 1)"

definition double_round :: "real \<Rightarrow> real" where
  "double_round r =
     (if r = 0 then 0
      else
        let e = \<lfloor>log 2 \<bar>r\<bar>\<rfloor> - 52
        in real_of_int (round_half_even (r / 2 powr real_of_int e)) * 2 powr real_of_int e)"

text \<open>The conversion of a Python integer to a double in mixed arithmetic.\<close>

definition float_of_int :: "int \<Rightarrow> real" where
  "float_of_int n = double_round (real_of_int n)"

subsection \<open>Intersection of two lines\<close>

text \<open>
  \<^verbatim>\<open>PerspectiveGrid.line_intersection\<close> (lines 67-86): the denominator and the numerator are
  computed on integers; the parallel case returns the far point; \<^verbatim>\<open>t_num / den\<close> is the
  correctly rounded quotient of two integers, and each later operation rounds once.
\<close>

definition grid_line_intersection ::
  "QPoint \<Rightarrow> QPoint \<Rightarrow> QPoint \<Rightarrow> QPoint \<Rightarrow> py_error + QPoint" where
  "grid_line_intersection a1 a2 b1 b2 =
     (let x1 = qx a1; y1 = qy a1;
          x2 = qx a2; y2 = qy a2;
          x3 = qx b1; y3 = qy b1;
          x4 = qx b2; y4 = qy b2;
          den = (x1 - x2) * (y3 - y4) - (y1 - y2) * (x3 - x4)
      in if den = 0 then Inr (QPoint 10000 10000)
         else
           let t_num = (x1 - x3) * (y3 - y4) - (y1 - y3) * (x3 - x4);
               t = double_round (real_of_int t_num / real_of_int den);
               x = double_round (float_of_int x1 + double_round (t * float_of_int (x2 - x1)));
               y = double_round (float_of_int y1 + double_round (t * float_of_int (y2 - y1)))
           in make_QPoint (py_int x) (py_int y))"

text \<open>
  \<^verbatim>\<open>Canvas.line_intersection\<close> (lines 728-745): the same computation, but the parallel case
  returns the second endpoint of the first segment, whose coordinates are read off a
  \<^verbatim>\<open>QPoint\<close>.
\<close>

definition canvas_line_intersection ::
  "QPoint \<Rightarrow> QPoint \<Rightarrow> QPoint \<Rightarrow> QPoint \<Rightarrow> py_error + QPoint" where
  "canvas_line_intersection a1 a2 b1 b2 =
     (let x1 = qx a1; y1 = qy a1;
          x2 = qx a2; y2 = qy a2;
          x3 = qx b1; y3 = qy b1;
          x4 = qx b2; y4 = qy b2;
          den = (x1 - x2) * (y3 - y4) - (y1 - y2) * (x3 - x4)
      in if den = 0 then Inr (QPoint x2 y2)
         else
           let t_num = (x1 - x3) * (y3 - y4) - (y1 - y3) * (x3 - x4);
               t = double_round (real_of_int t_num / real_of_int den);
               x = double_round (float_of_int x1 + double_round (t * float_of_int (x2 - x1)));
               y = double_round (float_of_int y1 + double_round (t * float_of_int (y2 - y1)))
           in make_QPoint (py_int x) (py_int y))"

text \<open>The denominator of both variants, as the specification writes it.\<close>

definition denominator :: "QPoint \<Rightarrow> QPoint \<Rightarrow> QPoint \<Rightarrow> QPoint \<Rightarrow> int" where
  "denominator a1 a2 b1 b2 =
     (qx a1 - qx a2) * (qy b1 - qy b2) - (qy a1 - qy a2) * (qx b1 - qx b2)"

subsection \<open>Vanishing point solver\<close>

text \<open>
  \<^verbatim>\<open>PerspectiveGrid\<close> (lines 38-65).  Only the fields that the operations below read or write
  are kept: \<^verbatim>\<open>enabled\<close> and \<^verbatim>\<open>primary_vp\<close>.  \<^verbatim>\<open>calculate_two_point_perspective\<close>
  returns a list and stores it in \<^verbatim>\<open>primary_vp\<close>, except on the early return.  An exception
  of either \<^verbatim>\<open>line_intersection\<close> call leaves the function before the assignment.
\<close>

record PerspectiveGrid =
  enabled :: bool
  primary_vp :: "QPoint list"

definition valid_vp :: "QPoint \<Rightarrow> bool" where
  "valid_vp vp = (\<not> (\<bar>qx vp\<bar> < 10 \<and> \<bar>qy vp\<bar> < 10))"

definition calculate_two_point_perspective ::
  "PerspectiveGrid \<Rightarrow> QPoint list \<Rightarrow> py_error + QPoint list \<times> PerspectiveGrid" where
  "calculate_two_point_perspective g pts =
     (if length pts \<noteq> 4 then Inr ([], g)
      else
        let p1 = pts ! 0; p2 = pts ! 1; p3 = pts ! 2; p4 = pts ! 3
        in case grid_line_intersection p1 p2 p3 p4 of
             Inl e \<Rightarrow> Inl e
           | Inr vp1 \<Rightarrow>
               (case grid_line_intersection p2 p3 p4 p1 of
                  Inl e \<Rightarrow> Inl e
                | Inr vp2 \<Rightarrow>
                    let valid_vp1 = valid_vp vp1;
                        valid_vp2 = valid_vp vp2;
                        res = (if valid_vp1 \<and> valid_vp2 then [vp1, vp2] else [])
                    in Inr (res, g\<lparr>primary_vp := res\<rparr>)))"

subsection \<open>Walking along a line\<close>

text \<open>
  \<^verbatim>\<open>Canvas.get_point_along_line\<close> (lines 747-763): from \<open>endp\<close> (the source's \<^verbatim>\<open>end\<close>), walk
  \<open>len\<close> units in the direction \<open>endp - start\<close>; a zero direction returns \<open>endp\<close>.
  \<^verbatim>\<open>np.sqrt\<close> converts its integer argument to a double and takes the correctly rounded
  root; on a Python integer that does not fit 64 bits it raises \<^verbatim>\<open>TypeError\<close>.  The
  length that the callers pass is a layer's stored width or height, or its negation; it
  is converted to a double for the division.
\<close>

definition get_point_along_line :: "QPoint \<Rightarrow> QPoint \<Rightarrow> int \<Rightarrow> py_error + QPoint" where
  "get_point_along_line start endp len =
     (let dx = qx endp - qx start;
          dy = qy endp - qy start
      in if dx = 0 \<and> dy = 0 then Inr endp
         else if 2 ^ 64 \<le> dx\<^sup>2 + dy\<^sup>2 then Inl TypeError
         else
           let dist = double_round (sqrt (float_of_int (dx\<^sup>2 + dy\<^sup>2)))
           in if dist = 0 then Inr endp
              else
                let ratio = double_round (float_of_int len / dist);
                    x = double_round (float_of_int (qx endp)
                          + double_round (float_of_int dx * ratio));
                    y = double_round (float_of_int (qy endp)
                          + double_round (float_of_int dy * ratio))
                in make_QPoint (py_int x) (py_int y))"

text \<open>
  \<^verbatim>\<open>math.atan2(y, x)\<close> on finite arguments (the source passes integers, so no signed zero
  occurs).
\<close>

definition atan2 :: "real \<Rightarrow> real \<Rightarrow> real" where
  "atan2 y x =
     (if 0 < x then arctan (y / x)
      else if x < 0 then (if 0 \<le> y then arctan (y / x) + pi else arctan (y / x) - pi)
      else if 0 < y then pi / 2
      else if y < 0 then - (pi / 2)
      else 0)"

section \<open>Layers\<close>

text \<open>
  A \<^verbatim>\<open>QImage\<close> is kept as its size only; pixel contents are not modelled.
  \<^verbatim>\<open>PerspectiveLayer\<close> (lines 12-36) has one field per attribute of the class.  The
  constructor does not create \<^verbatim>\<open>initial_vp1_distance\<close>: the attribute is absent (\<open>None\<close>)
  until \<^verbatim>\<open>toggle_layer_drag_mode\<close> assigns it, and reading it before raises
  \<^verbatim>\<open>AttributeError\<close>.
\<close>

record QImage =
  img_width :: int
  img_height :: int

record PerspectiveLayer =
  name :: string
  original_image :: "QImage option"
  warped_image :: "QImage option"
  visible :: bool
  points :: "QPoint list"
  warp_points :: "QPoint list"
  z_order :: int
  opacity :: real
  selection_points :: "QPoint list"
  position :: QPoint
  source_vp :: "QPoint list"
  original_width :: int
  original_height :: int
  drag_offset :: QPoint
  layer_drag_mode :: bool
  layer_scale :: real
  layer_position :: QPoint
  drag_layer_image :: "QImage option"
  initial_center :: QPoint
  initial_vp1_distance :: "real option"
  initial_vp2_distance :: real

definition new_layer :: "string \<Rightarrow> PerspectiveLayer" where
  "new_layer nm =
     \<lparr> name = nm, original_image = None, warped_image = None, visible = True,
       points = [], warp_points = [], z_order = 0, opacity = 1,
       selection_points = [], position = QPoint 0 0, source_vp = [],
       original_width = 0, original_height = 0, drag_offset = QPoint 0 0,
       layer_drag_mode = False, layer_scale = 1, layer_position = QPoint 0 0,
       drag_layer_image = None, initial_center = QPoint 0 0,
       initial_vp1_distance = None, initial_vp2_distance = 1 \<rparr>"

subsection \<open>Constrained corner drag\<close>

text \<open>
  \<^verbatim>\<open>VanishingPointEditor.apply_perspective_to_layer\<close> (lines 1118-1177) returns at once
  without an image or without exactly four warp points.  Otherwise it re-warps the image
  into the bounding box of the warp points and writes \<^verbatim>\<open>warped_image\<close> and \<^verbatim>\<open>position\<close>,
  nothing else.  The NumPy, OpenCV and Qt calls that compute the two values (lines 1124-1173)
  are the parameter \<open>rewarp\<close>, from the image and the warp points to the new image and
  position, or to the exception that one of the calls raises.
\<close>

definition apply_perspective_to_layer ::
  "(QImage \<Rightarrow> QPoint list \<Rightarrow> py_error + QImage \<times> QPoint) \<Rightarrow> PerspectiveLayer
   \<Rightarrow> py_error + PerspectiveLayer" where
  "apply_perspective_to_layer rewarp layer =
     (case original_image layer of
        None \<Rightarrow> Inr layer
      | Some img \<Rightarrow>
          if warp_points layer = [] \<or> length (warp_points layer) \<noteq> 4 then Inr layer
          else
            (case rewarp img (warp_points layer) of
               Inl e \<Rightarrow> Inl e
             | Inr (q_img, pos) \<Rightarrow>
                 Inr (layer\<lparr> warped_image := Some q_img, position := pos \<rparr>)))"

text \<open>
  The four update rules of \<^verbatim>\<open>Canvas.mouseMoveEvent\<close> (lines 533-586) on the list of warp
  points, after the dragged entry has been overwritten, in the order of the source: the
  first exception ends the rule.  An index outside 0..3 matches no branch.
\<close>

definition rederive_corners ::
  "QPoint \<Rightarrow> QPoint \<Rightarrow> int \<Rightarrow> int \<Rightarrow> nat \<Rightarrow> QPoint list \<Rightarrow> py_error + QPoint list" where
  "rederive_corners vp1 vp2 w h drag_idx wp =
     (if drag_idx = 0 then
        (let p1 = wp ! 0
         in case get_point_along_line vp1 p1 w of
              Inl e \<Rightarrow> Inl e
            | Inr p2 \<Rightarrow>
                (case get_point_along_line vp2 p1 h of
                   Inl e \<Rightarrow> Inl e
                 | Inr p3 \<Rightarrow>
                     (case canvas_line_intersection p2 vp2 p3 vp1 of
                        Inl e \<Rightarrow> Inl e
                      | Inr c \<Rightarrow> Inr (wp[1 := p2, 3 := p3, 2 := c]))))
      else if drag_idx = 1 then
        (let p2 = wp ! 1
         in case get_point_along_line vp1 p2 (- w) of
              Inl e \<Rightarrow> Inl e
            | Inr p1 \<Rightarrow>
                (case get_point_along_line vp2 p2 h of
                   Inl e \<Rightarrow> Inl e
                 | Inr p3 \<Rightarrow>
                     (case canvas_line_intersection p1 vp2 p3 vp1 of
                        Inl e \<Rightarrow> Inl e
                      | Inr c \<Rightarrow> Inr (wp[0 := p1, 2 := p3, 3 := c]))))
      else if drag_idx = 2 then
        (let p3 = wp ! 2
         in case get_point_along_line vp1 p3 (- w) of
              Inl e \<Rightarrow> Inl e
            | Inr p4 \<Rightarrow>
                (case get_point_along_line vp2 p3 (- h) of
                   Inl e \<Rightarrow> Inl e
                 | Inr p2 \<Rightarrow>
                     (case canvas_line_intersection p2 vp1 p4 vp2 of
                        Inl e \<Rightarrow> Inl e
                      | Inr c \<Rightarrow> Inr (wp[3 := p4, 1 := p2, 0 := c]))))
      else if drag_idx = 3 then
        (let p4 = wp ! 3
         in case get_point_along_line vp1 p4 w of
              Inl e \<Rightarrow> Inl e
            | Inr p3 \<Rightarrow>
                (case get_point_along_line vp2 p4 (- h) of
                   Inl e \<Rightarrow> Inl e
                 | Inr p1 \<Rightarrow>
                     (case canvas_line_intersection p1 vp1 p3 vp2 of
                        Inl e \<Rightarrow> Inl e
                      | Inr c \<Rightarrow> Inr (wp[2 := p3, 0 := p1, 1 := c]))))
      else Inr wp)"

text \<open>
  The constrained branch of \<^verbatim>\<open>Canvas.mouseMoveEvent\<close> (lines 527-589) for the current
  layer, the dragged index and the scene position.  The branch is taken when
  \<^verbatim>\<open>warp_points\<close> has at least four entries and \<^verbatim>\<open>source_vp\<close> is not empty; otherwise the
  result is \<open>None\<close> and the source goes on to its unconstrained branches.  Unpacking
  \<^verbatim>\<open>source_vp[:2]\<close> into two names raises \<^verbatim>\<open>ValueError\<close> on a one-element list, and the
  assignment to \<^verbatim>\<open>warp_points[drag_idx]\<close> raises \<^verbatim>\<open>IndexError\<close> out of range.  An
  exception leaves the event handler; the layer as it was when the exception was raised is
  not part of the result.
\<close>

definition constrained_corner_drag ::
  "(QImage \<Rightarrow> QPoint list \<Rightarrow> py_error + QImage \<times> QPoint) \<Rightarrow> PerspectiveLayer \<Rightarrow> nat
   \<Rightarrow> QPoint \<Rightarrow> (py_error + PerspectiveLayer) option" where
  "constrained_corner_drag rewarp layer drag_idx scene_pos =
     (if warp_points layer \<noteq> [] \<and> 4 \<le> length (warp_points layer) \<and> source_vp layer \<noteq> []
      then
        (case source_vp layer of
           vp1 # vp2 # _ \<Rightarrow>
             if length (warp_points layer) \<le> drag_idx then Some (Inl IndexError)
             else
               (case rederive_corners vp1 vp2 (original_width layer) (original_height layer)
                       drag_idx ((warp_points layer)[drag_idx := scene_pos]) of
                  Inl e \<Rightarrow> Some (Inl e)
                | Inr wp' \<Rightarrow>
                    Some (apply_perspective_to_layer rewarp (layer\<lparr>warp_points := wp'\<rparr>)))
         | _ \<Rightarrow> Some (Inl ValueError))
      else None)"

text \<open>
  A re-warp that succeeds, with the image unchanged and placed at (0, 0), to run the drag
  on concrete layers.
\<close>

definition rewarp_unchanged :: "QImage \<Rightarrow> QPoint list \<Rightarrow> py_error + QImage \<times> QPoint" where
  "rewarp_unchanged img pts = Inr (img, QPoint 0 0)"

subsection \<open>Free drag and wheel zoom of a layer\<close>

text \<open>
  The layer branch of \<^verbatim>\<open>Canvas.mouseMoveEvent\<close> (lines 654-725) for the dragged layer.
\<close>

definition drag_layer_move ::
  "PerspectiveGrid \<Rightarrow> QPoint \<Rightarrow> PerspectiveLayer \<Rightarrow> py_error + PerspectiveLayer" where
  "drag_layer_move g scene_pos layer =
     (if layer_drag_mode layer \<and> drag_layer_image layer \<noteq> None then
        let layer1 = layer\<lparr>layer_position :=
                       QPoint (qx scene_pos - qx (drag_offset layer))
                              (qy scene_pos - qy (drag_offset layer))\<rparr>
        in if primary_vp g \<noteq> [] \<and> 2 \<le> length (primary_vp g) then
             let vp1 = primary_vp g ! 0;
                 vp2 = primary_vp g ! 1;
                 current_center = layer_position layer1;
                 dx1 = qx current_center - qx vp1;
                 dy1 = qy current_center - qy vp1;
                 current_vp1_distance = sqrt (real_of_int (dx1 * dx1 + dy1 * dy1));
                 dx2 = qx current_center - qx vp2;
                 dy2 = qy current_center - qy vp2;
                 current_vp2_distance = sqrt (real_of_int (dx2 * dx2 + dy2 * dy2));
                 ax = qx current_center - qx (initial_center layer1);
                 ay = qy current_center - qy (initial_center layer1);
                 b1x = qx vp1 - qx (initial_center layer1);
                 b1y = qy vp1 - qy (initial_center layer1);
                 b2x = qx vp2 - qx (initial_center layer1);
                 b2y = qy vp2 - qy (initial_center layer1);
                 dot1 = ax * b1x + ay * b1y;
                 det1 = ax * b1y - ay * b1x;
                 angle1 = atan2 (real_of_int det1) (real_of_int dot1);
                 dot2 = ax * b2x + ay * b2y;
                 det2 = ax * b2y - ay * b2x;
                 angle2 = atan2 (real_of_int det2) (real_of_int dot2);
                 angle1_abs = \<bar>angle1\<bar>;
                 angle2_abs = \<bar>angle2\<bar>
             in if angle1_abs < angle2_abs then
                  (case initial_vp1_distance layer1 of
                     None \<Rightarrow> Inl AttributeError
                   | Some d1 \<Rightarrow>
                       let scale_factor = (if d1 \<noteq> 0 then current_vp1_distance / d1 else 1)
                       in Inr (layer1\<lparr>layer_scale := max (1 / 10) (min scale_factor 2)\<rparr>))
                else
                  (let scale_factor =
                         (if initial_vp2_distance layer1 \<noteq> 0
                          then current_vp2_distance / initial_vp2_distance layer1 else 1)
                   in Inr (layer1\<lparr>layer_scale := max (1 / 10) (min scale_factor 2)\<rparr>))
           else Inr layer1
      else
        Inr (layer\<lparr>position :=
                    QPoint (qx scene_pos - qx (drag_offset layer))
                           (qy scene_pos - qy (drag_offset layer))\<rparr>))"

text \<open>A run of move events on the same layer; the first exception ends it.\<close>

fun drag_layer_moves ::
  "PerspectiveGrid \<Rightarrow> QPoint list \<Rightarrow> PerspectiveLayer \<Rightarrow> py_error + PerspectiveLayer" where
  "drag_layer_moves g [] layer = Inr layer"
| "drag_layer_moves g (pos # rest) layer =
     (case drag_layer_move g pos layer of
        Inl e \<Rightarrow> Inl e
      | Inr layer' \<Rightarrow> drag_layer_moves g rest layer')"

text \<open>
  The layer branch of \<^verbatim>\<open>Canvas.wheelEvent\<close> (lines 778-783); \<open>delta_y\<close> is
  \<^verbatim>\<open>event.angleDelta().y()\<close>.
\<close>

definition wheel_zoom_layer :: "int \<Rightarrow> PerspectiveLayer \<Rightarrow> PerspectiveLayer" where
  "wheel_zoom_layer delta_y layer =
     (let factor = (if 0 < delta_y then 11 / 10 else 9 / 10);
          scaled = layer_scale layer * factor
      in layer\<lparr>layer_scale := max (1 / 10) (min scaled 5)\<rparr>)"

subsection \<open>Extracting the selection\<close>

text \<open>
  \<^verbatim>\<open>Canvas.sort_points\<close> (lines 938-954): the points ordered by their angle around the
  centre; \<^verbatim>\<open>np.argsort\<close> on four keys is an insertion sort, which is stable.
\<close>

definition sort_points :: "QPoint list \<Rightarrow> QPoint list" where
  "sort_points pts =
     (let center_x = real_of_int (sum_list (map qx pts)) / 4;
          center_y = real_of_int (sum_list (map qy pts)) / 4;
          angles = map (\<lambda>p. atan2 (real_of_int (qy p) - center_y) (real_of_int (qx p) - center_x)) pts;
          sorted_indices = sort_key (\<lambda>i. angles ! i) [0 ..< length pts]
      in map (\<lambda>i. pts ! i) sorted_indices)"

text \<open>
  \<^verbatim>\<open>Canvas.copy_selection_to_drag_layer\<close> (lines 849-936).  \<open>pixmap_ok\<close> is the truth
  value of \<^verbatim>\<open>self.pixmap\<close>.  \<open>warp\<close> stands for the OpenCV and Qt calls after the size
  check (lines 872-932), given the sorted points, the width and the height; it yields \<open>None\<close>
  when one of them raises, which the source's \<^verbatim>\<open>except Exception\<close> turns into an absent
  image.
\<close>

definition copy_selection_to_drag_layer ::
  "bool \<Rightarrow> (QPoint list \<Rightarrow> int \<Rightarrow> int \<Rightarrow> QImage option) \<Rightarrow> PerspectiveLayer \<Rightarrow> PerspectiveLayer" where
  "copy_selection_to_drag_layer pixmap_ok warp layer =
     (if length (selection_points layer) \<noteq> 4 \<or> \<not> pixmap_ok
      then layer\<lparr>drag_layer_image := None\<rparr>
      else
        let sorted_points = sort_points (selection_points layer);
            min_x = Min (set (map qx sorted_points));
            max_x = Max (set (map qx sorted_points));
            min_y = Min (set (map qy sorted_points));
            max_y = Max (set (map qy sorted_points));
            width = max_x - min_x;
            height = max_y - min_y
        in if width \<le> 0 \<or> height \<le> 0 then layer\<lparr>drag_layer_image := None\<rparr>
           else layer\<lparr>drag_layer_image := warp sorted_points width height\<rparr>)"

text \<open>
  \<^verbatim>\<open>Canvas.toggle_layer_drag_mode\<close> (lines 797-847) on the current layer; message boxes are
  not modelled.
\<close>

definition toggle_layer_drag_mode ::
  "bool \<Rightarrow> (QPoint list \<Rightarrow> int \<Rightarrow> int \<Rightarrow> QImage option) \<Rightarrow> PerspectiveGrid \<Rightarrow>
   PerspectiveLayer \<Rightarrow> PerspectiveLayer" where
  "toggle_layer_drag_mode pixmap_ok warp g layer =
     (if length (selection_points layer) \<noteq> 4 then layer
      else
        let layer1 = layer\<lparr>layer_drag_mode := \<not> layer_drag_mode layer\<rparr>
        in if layer_drag_mode layer1 then
             let layer2 = copy_selection_to_drag_layer pixmap_ok warp layer1
             in if drag_layer_image layer2 \<noteq> None then
                  let layer3 =
                        (if length (selection_points layer2) = 4 then
                           let center_x = real_of_int (sum_list (map qx (selection_points layer2))) / 4;
                               center_y = real_of_int (sum_list (map qy (selection_points layer2))) / 4;
                               c = QPoint (py_int center_x) (py_int center_y);
                               layer2a = layer2\<lparr>layer_position := c, initial_center := c\<rparr>
                           in if primary_vp g \<noteq> [] \<and> 2 \<le> length (primary_vp g) then
                                let vp1 = primary_vp g ! 0;
                                    vp2 = primary_vp g ! 1;
                                    dx1 = qx c - qx vp1;
                                    dy1 = qy c - qy vp1;
                                    dx2 = qx c - qx vp2;
                                    dy2 = qy c - qy vp2
                                in layer2a\<lparr>initial_vp1_distance :=
                                             Some (sqrt (real_of_int (dx1 * dx1 + dy1 * dy1))),
                                           initial_vp2_distance :=
                                             sqrt (real_of_int (dx2 * dx2 + dy2 * dy2))\<rparr>
                              else layer2a\<lparr>initial_vp1_distance := Some 1, initial_vp2_distance := 1\<rparr>
                         else layer2\<lparr>layer_position := QPoint 0 0, initial_center := QPoint 0 0,
                                     initial_vp2_distance := 1\<rparr>)
                  in layer3\<lparr>layer_scale := 1\<rparr>
                else layer2\<lparr>layer_drag_mode := False\<rparr>
           else layer1)"

section \<open>The layer stack\<close>

text \<open>
  \<^verbatim>\<open>VanishingPointEditor\<close> (lines 956-966): the layer list, the index of the current layer
  (\<open>-1\<close> when there is none) and the scene-wide grid.  Widgets are not modelled.
\<close>

record VanishingPointEditor =
  layers :: "PerspectiveLayer list"
  current_layer_idx :: int
  grid :: PerspectiveGrid
  control_point_mode :: bool

definition empty_editor :: VanishingPointEditor where
  "empty_editor =
     \<lparr> layers = [], current_layer_idx = - 1,
       grid = \<lparr> enabled = True, primary_vp = [] \<rparr>, control_point_mode = False \<rparr>"

definition get_current_layer :: "VanishingPointEditor \<Rightarrow> PerspectiveLayer option" where
  "get_current_layer ed =
     (if 0 \<le> current_layer_idx ed \<and> current_layer_idx ed < int (length (layers ed))
      then Some (layers ed ! nat (current_layer_idx ed)) else None)"

text \<open>
  \<^verbatim>\<open>add_layer\<close> (lines 1179-1191); \<open>nm\<close> is the name after the dialog and the default have
  been resolved.
\<close>

definition add_layer :: "string \<Rightarrow> VanishingPointEditor \<Rightarrow> VanishingPointEditor" where
  "add_layer nm ed =
     (let new = (new_layer nm)\<lparr>z_order := int (length (layers ed))\<rparr>;
          ls = layers ed @ [new]
      in ed\<lparr>layers := ls, current_layer_idx := int (length ls) - 1\<rparr>)"

text \<open>\<^verbatim>\<open>move_layer_up\<close> (lines 1078-1093) and \<^verbatim>\<open>move_layer_down\<close> (lines 1095-1110).\<close>

definition move_layer_up :: "VanishingPointEditor \<Rightarrow> VanishingPointEditor" where
  "move_layer_up ed =
     (if 0 \<le> current_layer_idx ed \<and> current_layer_idx ed < int (length (layers ed)) - 1 then
        let i = nat (current_layer_idx ed);
            a = (layers ed ! i)\<lparr>z_order := z_order (layers ed ! i) + 1\<rparr>;
            b = (layers ed ! (i + 1))\<lparr>z_order := z_order (layers ed ! (i + 1)) - 1\<rparr>
        in ed\<lparr>layers := (layers ed)[i := b, i + 1 := a],
               current_layer_idx := current_layer_idx ed + 1\<rparr>
      else ed)"

definition move_layer_down :: "VanishingPointEditor \<Rightarrow> VanishingPointEditor" where
  "move_layer_down ed =
     (if 0 < current_layer_idx ed \<and> current_layer_idx ed < int (length (layers ed)) then
        let i = nat (current_layer_idx ed);
            a = (layers ed ! i)\<lparr>z_order := z_order (layers ed ! i) - 1\<rparr>;
            b = (layers ed ! (i - 1))\<lparr>z_order := z_order (layers ed ! (i - 1)) + 1\<rparr>
        in ed\<lparr>layers := (layers ed)[i := b, i - 1 := a],
               current_layer_idx := current_layer_idx ed - 1\<rparr>
      else ed)"

datatype stack_op = AddLayer string | MoveUp | MoveDown

fun apply_stack_op :: "VanishingPointEditor \<Rightarrow> stack_op \<Rightarrow> VanishingPointEditor" where
  "apply_stack_op ed (AddLayer nm) = add_layer nm ed"
| "apply_stack_op ed MoveUp = move_layer_up ed"
| "apply_stack_op ed MoveDown = move_layer_down ed"

text \<open>
  \<^verbatim>\<open>draw_layers\<close> (lines 1276-1311): the layers in the order in which they are painted.
  Python's \<^verbatim>\<open>sorted\<close> is stable, as \<^const>\<open>sort_key\<close> is.
\<close>

definition draw_layers :: "VanishingPointEditor \<Rightarrow> PerspectiveLayer list" where
  "draw_layers ed = filter visible (sort_key z_order (layers ed))"

text \<open>\<^verbatim>\<open>clear_points\<close> (lines 1223-1230).\<close>

definition clear_points :: "VanishingPointEditor \<Rightarrow> VanishingPointEditor" where
  "clear_points ed =
     (case get_current_layer ed of
        None \<Rightarrow> ed
      | Some current_layer \<Rightarrow>
          ed\<lparr>layers := (layers ed)[nat (current_layer_idx ed) :=
                          current_layer\<lparr>points := [], selection_points := []\<rparr>],
             grid := (grid ed)\<lparr>primary_vp := []\<rparr>\<rparr>)"

text \<open>
  \<^verbatim>\<open>Canvas.draw_grid\<close> with \<^verbatim>\<open>calculate_radial_lines\<close> (lines 88-97, 245-270): the line
  segments drawn, those from the first vanishing point first.
\<close>

definition calculate_radial_lines :: "QPoint \<Rightarrow> QPoint list \<Rightarrow> (QPoint \<times> QPoint) list" where
  "calculate_radial_lines vp control_points = map (\<lambda>pt. (vp, pt)) control_points"

definition draw_grid :: "VanishingPointEditor \<Rightarrow> (QPoint \<times> QPoint) list" where
  "draw_grid ed =
     (case get_current_layer ed of
        None \<Rightarrow> []
      | Some current_layer \<Rightarrow>
          if length (points current_layer) < 4 \<or> primary_vp (grid ed) = [] then []
          else if 2 \<le> length (primary_vp (grid ed)) then
            calculate_radial_lines (primary_vp (grid ed) ! 0) (points current_layer)
            @ calculate_radial_lines (primary_vp (grid ed) ! 1) (points current_layer)
          else [])"

section \<open>Notions of the specification\<close>

text \<open>
  The residual of the real point \<open>(x, y)\<close> in the equation of the infinite line through
  \<open>s\<close> and \<open>e\<close>: it is zero exactly when the point satisfies the equation.
\<close>

definition line_residual :: "QPoint \<Rightarrow> QPoint \<Rightarrow> real \<Rightarrow> real \<Rightarrow> real" where
  "line_residual s e x y =
     real_of_int (qx e - qx s) * (y - real_of_int (qy s))
     - real_of_int (qy e - qy s) * (x - real_of_int (qx s))"

text \<open>
  The point where the infinite lines through \<open>a1, a2\<close> and through \<open>b1, b2\<close> meet, in exact
  real arithmetic: the point \<open>a1 + t (a2 - a1)\<close> with \<open>t\<close> the exact quotient of the numerator
  and the denominator that both \<^verbatim>\<open>line_intersection\<close> methods form.  It is meaningful when
  the denominator is not zero.
\<close>

definition exact_intersection :: "QPoint \<Rightarrow> QPoint \<Rightarrow> QPoint \<Rightarrow> QPoint \<Rightarrow> real \<times> real" where
  "exact_intersection a1 a2 b1 b2 =
     (let x1 = qx a1; y1 = qy a1;
          x2 = qx a2; y2 = qy a2;
          x3 = qx b1; y3 = qy b1;
          x4 = qx b2; y4 = qy b2;
          den = (x1 - x2) * (y3 - y4) - (y1 - y2) * (x3 - x4);
          t_num = (x1 - x3) * (y3 - y4) - (y1 - y3) * (x3 - x4);
          t = real_of_int t_num / real_of_int den
      in (real_of_int x1 + t * real_of_int (x2 - x1),
          real_of_int y1 + t * real_of_int (y2 - y1)))"

text \<open>
  A stored point is near a real point: each integer coordinate is less than
  \<open>1 + 1/100000\<close> away from the real one.  One unit is what the truncation to an integer
  can lose; the rest bounds the rounding of the floating-point operations before it.
\<close>

definition near_point :: "QPoint \<Rightarrow> real \<times> real \<Rightarrow> bool" where
  "near_point p e =
     (\<bar>real_of_int (qx p) - fst e\<bar> < 1 + 1 / 100000
      \<and> \<bar>real_of_int (qy p) - snd e\<bar> < 1 + 1 / 100000)"

text \<open>Every layer's \<^verbatim>\<open>z_order\<close> is its index in the layer list.\<close>

definition z_orders_match :: "PerspectiveLayer list \<Rightarrow> bool" where
  "z_orders_match ls = (map z_order ls = map int [0 ..< length ls])"

text \<open>
  The free-drag scale rule in the specification's words: the signed angle between two
  vectors is the \<^verbatim>\<open>atan2\<close> of their cross and dot products; the chosen vanishing point is
  the one whose angle with the drag vector has the smaller absolute value (the second one
  when the two are equal); the scale is the ratio of the current to the initial distance to
  the chosen point, 1 when the initial distance is zero, clamped to [0.1, 2.0].
\<close>

definition euclidean_distance :: "QPoint \<Rightarrow> QPoint \<Rightarrow> real" where
  "euclidean_distance p q = sqrt (real_of_int ((qx p - qx q)\<^sup>2 + (qy p - qy q)\<^sup>2))"

definition signed_angle :: "int \<times> int \<Rightarrow> int \<times> int \<Rightarrow> real" where
  "signed_angle a b =
     atan2 (real_of_int (fst a * snd b - snd a * fst b))
           (real_of_int (fst a * fst b + snd a * snd b))"

definition vector_from :: "QPoint \<Rightarrow> QPoint \<Rightarrow> int \<times> int" where
  "vector_from p q = (qx q - qx p, qy q - qy p)"

definition clamp :: "real \<Rightarrow> real \<Rightarrow> real \<Rightarrow> real" where
  "clamp lo hi v = (if v < lo then lo else if hi < v then hi else v)"

definition spec_free_drag_scale ::
  "QPoint \<Rightarrow> QPoint \<Rightarrow> QPoint \<Rightarrow> QPoint \<Rightarrow> real \<Rightarrow> real \<Rightarrow> real" where
  "spec_free_drag_scale initialCenter currentAnchor vp1 vp2 initialVp1Distance initialVp2Distance =
     (let drag = vector_from initialCenter currentAnchor;
          toward_vp1 = \<bar>signed_angle drag (vector_from initialCenter vp1)\<bar>
                         < \<bar>signed_angle drag (vector_from initialCenter vp2)\<bar>;
          chosen = (if toward_vp1 then vp1 else vp2);
          initialDistance = (if toward_vp1 then initialVp1Distance else initialVp2Distance);
          ratio = (if initialDistance = 0 then 1
                   else euclidean_distance currentAnchor chosen / initialDistance)
      in clamp (1 / 10) 2 ratio)"

text \<open>The axis-aligned bounding box of a list of points.\<close>

definition bounding_box_width :: "QPoint list \<Rightarrow> int" where
  "bounding_box_width pts = Max (set (map qx pts)) - Min (set (map qx pts))"

definition bounding_box_height :: "QPoint list \<Rightarrow> int" where
  "bounding_box_height pts = Max (set (map qy pts)) - Min (set (map qy pts))"

text \<open>
  For the corner with index \<open>i\<close> of a quadrilateral: the neighbour that shares with it the
  edge toward the first vanishing point, the neighbour that shares the edge toward the
  second, and the diagonally opposite corner.
\<close>

definition vp1_neighbour :: "nat \<Rightarrow> nat" where
  "vp1_neighbour i = (if i = 0 then 1 else if i = 1 then 0 else if i = 2 then 3 else 2)"

definition vp2_neighbour :: "nat \<Rightarrow> nat" where
  "vp2_neighbour i = (if i = 0 then 3 else if i = 1 then 2 else if i = 2 then 1 else 0)"

definition diagonal_corner :: "nat \<Rightarrow> nat" where
  "diagonal_corner i = (i + 2) mod 4"

text \<open>
  The point at the signed distance \<open>len\<close> from \<open>endp\<close> along the direction from \<open>start\<close> to
  \<open>endp\<close>, in exact real arithmetic: a positive \<open>len\<close> leads away from \<open>start\<close>, a negative
  one toward it.  When the two points coincide there is no direction and the point is
  \<open>endp\<close>.
\<close>

definition exact_point_along_line :: "QPoint \<Rightarrow> QPoint \<Rightarrow> int \<Rightarrow> real \<times> real" where
  "exact_point_along_line start endp len =
     (let dx = real_of_int (qx endp - qx start);
          dy = real_of_int (qy endp - qy start)
      in if dx = 0 \<and> dy = 0 then (real_of_int (qx endp), real_of_int (qy endp))
         else (real_of_int (qx endp) + dx * real_of_int len / sqrt (dx\<^sup>2 + dy\<^sup>2),
               real_of_int (qy endp) + dy * real_of_int len / sqrt (dx\<^sup>2 + dy\<^sup>2)))"

text \<open>
  The signed lengths of the two walks from the dragged corner \<open>i\<close> (lines 536-584): the
  width is taken positive from corners 0 and 3, the height from corners 0 and 1.
\<close>

definition width_walk :: "nat \<Rightarrow> int \<Rightarrow> int" where
  "width_walk i w = (if i = 0 \<or> i = 3 then w else - w)"

definition height_walk :: "nat \<Rightarrow> int \<Rightarrow> int" where
  "height_walk i h = (if i = 0 \<or> i = 1 then h else - h)"

text \<open>
  The placement of the diagonal corner \<open>d\<close> from the lines through \<open>a1, a2\<close> and through
  \<open>b1, b2\<close>: near their exact intersection, or at \<open>a2\<close> when the two are parallel.
\<close>

definition diagonal_placed :: "QPoint \<Rightarrow> QPoint \<Rightarrow> QPoint \<Rightarrow> QPoint \<Rightarrow> QPoint \<Rightarrow> bool" where
  "diagonal_placed a1 a2 b1 b2 d =
     (if denominator a1 a2 b1 b2 = 0 then d = a2
      else near_point d (exact_intersection a1 a2 b1 b2))"

section \<open>Verified properties\<close>

subsection \<open>Truncation to an integer\<close>

lemma py_int_close: "\<bar>real_of_int (py_int r) - r\<bar> < 1"
  unfolding py_int_def by (auto; linarith)

lemma py_int_of_int: "py_int (real_of_int n) = n"
  by (simp add: py_int_def)

subsection \<open>Rounding to double precision\<close>

lemma round_half_even_close: "\<bar>real_of_int (round_half_even r) - r\<bar> \<le> 1 / 2"
  unfolding round_half_even_def Let_def by (auto; linarith)

lemma round_half_even_of_int: "round_half_even (real_of_int n) = n"
  by (simp add: round_half_even_def)

lemma double_round_exponent:
  assumes "r \<noteq> 0" and "2 powr real_of_int (e + 52) \<le> \<bar>r\<bar>"
    and "\<bar>r\<bar> < 2 powr real_of_int (e + 53)"
  shows "double_round r = real_of_int (round_half_even (r / 2 powr real_of_int e)) * 2 powr real_of_int e"
proof -
  have "\<lfloor>log 2 \<bar>r\<bar>\<rfloor> = e + 52"
    using assms by (subst floor_log_eq_powr_iff) (simp_all add: add.commute)
  then show ?thesis
    using assms(1) by (simp add: double_round_def)
qed

text \<open>The relative error of one rounding is at most \<open>2\<^sup>-\<^sup>5\<^sup>3\<close>.\<close>

lemma double_round_error: "\<bar>double_round r - r\<bar> \<le> \<bar>r\<bar> / 2 ^ 53"
proof (cases "r = 0")
  case True
  then show ?thesis by (simp add: double_round_def)
next
  case False
  define E where "E = \<lfloor>log 2 \<bar>r\<bar>\<rfloor>"
  define p where "p = 2 powr real_of_int (E - 52)"
  have ppos: "0 < p" by (simp add: p_def)
  have "2 powr real_of_int E \<le> \<bar>r\<bar>"
    using False floor_log_eq_powr_iff [of "\<bar>r\<bar>" 2 E] by (simp add: E_def)
  moreover have "2 powr real_of_int E = p * 2 ^ 52"
  proof -
    have "2 powr real_of_int E = 2 powr (real_of_int (E - 52) + 52)" by simp
    also have "\<dots> = p * 2 powr 52" by (simp only: powr_add p_def)
    also have "(2::real) powr 52 = 2 ^ 52"
      using powr_realpow [of "2::real" 52] by simp
    finally show ?thesis .
  qed
  ultimately have lower: "p * 2 ^ 52 \<le> \<bar>r\<bar>" by simp
  have dr: "double_round r = real_of_int (round_half_even (r / p)) * p"
    using False by (simp add: double_round_def E_def p_def)
  have "\<bar>double_round r - r\<bar> = \<bar>(real_of_int (round_half_even (r / p)) - r / p) * p\<bar>"
    using ppos by (simp add: dr algebra_simps)
  also have "\<dots> = \<bar>real_of_int (round_half_even (r / p)) - r / p\<bar> * p"
    using ppos by (simp add: abs_mult)
  also have "\<dots> \<le> 1 / 2 * p"
    using round_half_even_close [of "r / p"] ppos by (intro mult_right_mono) simp_all
  also have "\<dots> = p * 2 ^ 52 / 2 ^ 53" by simp
  also have "\<dots> \<le> \<bar>r\<bar> / 2 ^ 53"
    using lower by (intro divide_right_mono) simp_all
  finally show ?thesis .
qed

lemma double_round_rel: "\<bar>double_round r - r\<bar> \<le> (1 / 2 ^ 53) * \<bar>r\<bar>"
  using double_round_error [of r] by simp

text \<open>A number with a significand of at most 53 bits is its own rounding.\<close>

lemma double_round_representable:
  assumes m: "\<bar>m\<bar> < 2 ^ 53"
  shows "double_round (real_of_int m * 2 powr real_of_int k) = real_of_int m * 2 powr real_of_int k"
proof (cases "m = 0")
  case True
  then show ?thesis by (simp add: double_round_def)
next
  case False
  define r where "r = real_of_int m * 2 powr real_of_int k"
  have rne: "r \<noteq> 0" using False by (simp add: r_def)
  define E where "E = \<lfloor>log 2 \<bar>r\<bar>\<rfloor>"
  have absr: "\<bar>r\<bar> = real_of_int \<bar>m\<bar> * 2 powr real_of_int k"
    by (simp add: r_def abs_mult)
  have "2 powr real_of_int E \<le> \<bar>r\<bar>"
    using rne floor_log_eq_powr_iff [of "\<bar>r\<bar>" 2 E] by (simp add: E_def)
  also have "\<bar>r\<bar> < 2 ^ 53 * 2 powr real_of_int k"
  proof -
    have "real_of_int \<bar>m\<bar> < 2 ^ 53" using m by (metis of_int_less_iff of_int_numeral of_int_power)
    then show ?thesis unfolding absr by (intro mult_strict_right_mono) simp_all
  qed
  also have "\<dots> = 2 powr real_of_int (k + 53)"
  proof -
    have "(2::real) ^ 53 = 2 powr 53" using powr_realpow [of "2::real" 53] by simp
    then show ?thesis by (simp add: powr_add)
  qed
  finally have "real_of_int E < real_of_int (k + 53)" by simp
  then have "E < k + 53" by linarith
  then have j: "0 \<le> k - (E - 52)" by simp
  define j where "j = nat (k - (E - 52))"
  have "r / 2 powr real_of_int (E - 52) = real_of_int m * 2 powr (real_of_int k - real_of_int (E - 52))"
    by (simp add: r_def powr_diff)
  also have "real_of_int k - real_of_int (E - 52) = real j"
    using j by (simp add: j_def)
  also have "(2::real) powr real j = 2 ^ j"
    by (simp add: powr_realpow)
  finally have q: "r / 2 powr real_of_int (E - 52) = real_of_int (m * 2 ^ j)"
    by simp
  have "double_round r = real_of_int (round_half_even (r / 2 powr real_of_int (E - 52))) * 2 powr real_of_int (E - 52)"
    using rne by (simp add: double_round_def E_def)
  also have "\<dots> = r / 2 powr real_of_int (E - 52) * 2 powr real_of_int (E - 52)"
    by (simp only: q round_half_even_of_int)
  also have "\<dots> = r" by simp
  finally show ?thesis by (simp add: r_def)
qed

lemma double_round_of_int:
  assumes "\<bar>m\<bar> < 2 ^ 53"
  shows "double_round (real_of_int m) = real_of_int m"
  using double_round_representable [OF assms, of 0] by simp

lemma double_round_dyadic:
  assumes "\<bar>m\<bar> < 2 ^ 53"
  shows "double_round (real_of_int m / 2 ^ k) = real_of_int m / 2 ^ k"
proof -
  have "(2::real) powr real_of_int (- int k) = 1 / 2 ^ k"
    by (simp add: powr_minus powr_realpow inverse_eq_divide)
  with double_round_representable [OF assms, of "- int k"] show ?thesis by simp
qed

lemma float_of_int_exact: "\<bar>n\<bar> < 2 ^ 53 \<Longrightarrow> float_of_int n = real_of_int n"
  by (simp add: float_of_int_def double_round_of_int)

lemma float_of_int32: "in_int32 n \<Longrightarrow> float_of_int n = real_of_int n"
  by (rule float_of_int_exact) (auto simp: in_int32_def)

lemma float_of_int32_diff:
  "in_int32 m \<Longrightarrow> in_int32 n \<Longrightarrow> float_of_int (m - n) = real_of_int (m - n)"
  by (rule float_of_int_exact) (auto simp: in_int32_def)

text \<open>Rules to evaluate the rounding of concrete numbers.\<close>

lemma double_round_zero: "double_round 0 = 0"
  by (simp add: double_round_def)

lemma double_round_one: "double_round 1 = 1"
  using double_round_of_int [of 1] by simp

lemma double_round_numeral:
  "(numeral k :: int) < 2 ^ 53 \<Longrightarrow> double_round (numeral k) = numeral k"
  using double_round_of_int [of "numeral k"] by simp

lemma double_round_neg_numeral:
  "(numeral k :: int) < 2 ^ 53 \<Longrightarrow> double_round (- numeral k) = - numeral k"
  using double_round_of_int [of "- numeral k"] by simp

lemma double_round_half: "double_round (1 / 2) = 1 / 2"
  using double_round_dyadic [of 1 1] by simp

lemma two_powr_neg_nat: "(2::real) powr (- real k) = 1 / 2 ^ k"
  by (simp add: powr_minus powr_realpow inverse_eq_divide)

lemma two_powr_numeral_52: "(2::real) powr 52 = 2 ^ 52"
  using powr_realpow [of "2::real" 52] by simp

lemma two_powr_numeral_53: "(2::real) powr 53 = 2 ^ 53"
  using powr_realpow [of "2::real" 53] by simp

lemma double_round_scaled_down:
  assumes "2 ^ 52 \<le> \<bar>r\<bar> * 2 ^ k" and "\<bar>r\<bar> * 2 ^ k < 2 ^ 53"
  shows "double_round r = real_of_int (round_half_even (r * 2 ^ k)) / 2 ^ k"
proof -
  have rne: "r \<noteq> 0" using assms(1) by auto
  have e52: "real_of_int (- int k + 52) = - real k + 52" by simp
  have e53: "real_of_int (- int k + 53) = - real k + 53" by simp
  have a: "2 powr real_of_int (- int k + 52) \<le> \<bar>r\<bar>"
  proof -
    have "2 powr real_of_int (- int k + 52) = 2 powr (- real k) * 2 powr 52"
      unfolding e52 by (rule powr_add)
    also have "\<dots> = 2 ^ 52 / 2 ^ k"
      unfolding two_powr_neg_nat two_powr_numeral_52 by simp
    also have "\<dots> \<le> \<bar>r\<bar>" using assms(1) by (simp add: field_simps)
    finally show ?thesis .
  qed
  have b: "\<bar>r\<bar> < 2 powr real_of_int (- int k + 53)"
  proof -
    have "\<bar>r\<bar> < 2 ^ 53 / 2 ^ k" using assms(2) by (simp add: field_simps)
    also have "\<dots> = 2 powr (- real k) * 2 powr 53"
      unfolding two_powr_neg_nat two_powr_numeral_53 by simp
    also have "\<dots> = 2 powr real_of_int (- int k + 53)"
      unfolding e53 by (rule powr_add [symmetric])
    finally show ?thesis .
  qed
  have "real_of_int (- int k) = - real k" by simp
  then show ?thesis
    using double_round_exponent [OF rne a b] by (simp add: two_powr_neg_nat)
qed

subsection \<open>Rounding error of the coordinate computations\<close>

lemma abs_triangle_chain:
  fixes a b c p q :: real
  shows "\<bar>a - b\<bar> \<le> p \<Longrightarrow> \<bar>b - c\<bar> \<le> q \<Longrightarrow> \<bar>a - c\<bar> \<le> p + q"
  by linarith

lemma double_round_preimage_bound:
  assumes "\<bar>double_round r\<bar> \<le> B"
  shows "\<bar>r\<bar> \<le> 2 * B"
proof -
  have "\<bar>double_round r - r\<bar> \<le> \<bar>r\<bar> / 2 ^ 53" by (rule double_round_error)
  moreover have "\<bar>r\<bar> / 2 ^ 53 \<le> \<bar>r\<bar> / 2"
    by (intro divide_left_mono) simp_all
  ultimately show ?thesis using assms by linarith
qed

text \<open>
  The coordinate \<open>x1 + t * dx\<close> of a line intersection, from the size of the value that
  was computed.
\<close>

lemma rounded_affine_error:
  fixes x1 dx q B :: real
  assumes x: "x = double_round (x1 + double_round (double_round q * dx))"
    and xb: "\<bar>x\<bar> \<le> B" and x1b: "\<bar>x1\<bar> \<le> B"
  shows "\<bar>x - (x1 + q * dx)\<bar> \<le> 20 * B / 2 ^ 53"
proof -
  define t where "t = double_round q"
  define w where "w = t * dx"
  define pr where "pr = double_round w"
  define s where "s = x1 + pr"
  have xs: "x = double_round s" by (simp add: x s_def pr_def w_def t_def)
  have sb: "\<bar>s\<bar> \<le> 2 * B"
    using xb unfolding xs by (rule double_round_preimage_bound)
  have e1: "\<bar>x - s\<bar> \<le> \<bar>s\<bar> / 2 ^ 53"
    unfolding xs by (rule double_round_error)
  have "\<bar>s\<bar> / 2 ^ 53 \<le> 2 * B / 2 ^ 53"
    using sb by (intro divide_right_mono) simp_all
  with e1 have e1': "\<bar>x - s\<bar> \<le> 2 * B / 2 ^ 53" by linarith
  have pb: "\<bar>pr\<bar> \<le> 3 * B"
    using sb x1b unfolding s_def by linarith
  have wb: "\<bar>w\<bar> \<le> 6 * B"
    using double_round_preimage_bound [of w "3 * B"] pb by (simp add: pr_def)
  have e2: "\<bar>pr - w\<bar> \<le> \<bar>w\<bar> / 2 ^ 53"
    unfolding pr_def by (rule double_round_error)
  have "\<bar>w\<bar> / 2 ^ 53 \<le> 6 * B / 2 ^ 53"
    using wb by (intro divide_right_mono) simp_all
  with e2 have e2': "\<bar>pr - w\<bar> \<le> 6 * B / 2 ^ 53" by linarith
  have tq: "\<bar>t - q\<bar> \<le> \<bar>q\<bar> / 2 ^ 53"
    unfolding t_def by (rule double_round_error)
  have "\<bar>w - q * dx\<bar> = \<bar>t - q\<bar> * \<bar>dx\<bar>"
    by (simp add: w_def abs_mult [symmetric] algebra_simps)
  also have "\<dots> \<le> \<bar>q\<bar> / 2 ^ 53 * \<bar>dx\<bar>"
    using tq by (intro mult_right_mono) simp_all
  also have "\<dots> = \<bar>q * dx\<bar> / 2 ^ 53"
    by (simp add: abs_mult)
  finally have e3: "\<bar>w - q * dx\<bar> \<le> \<bar>q * dx\<bar> / 2 ^ 53" .
  have "\<bar>q * dx\<bar> / 2 ^ 53 \<le> \<bar>q * dx\<bar> / 2"
    by (intro divide_left_mono) simp_all
  with e3 have "\<bar>q * dx\<bar> \<le> 2 * \<bar>w\<bar>" by linarith
  with wb have qb: "\<bar>q * dx\<bar> \<le> 12 * B" by linarith
  have "\<bar>q * dx\<bar> / 2 ^ 53 \<le> 12 * B / 2 ^ 53"
    using qb by (intro divide_right_mono) simp_all
  with e3 have e3': "\<bar>w - q * dx\<bar> \<le> 12 * B / 2 ^ 53" by linarith
  have "x - (x1 + q * dx) = (x - s) + (pr - w) + (w - q * dx)"
    by (simp add: s_def)
  then have "\<bar>x - (x1 + q * dx)\<bar> \<le> \<bar>x - s\<bar> + \<bar>pr - w\<bar> + \<bar>w - q * dx\<bar>"
    by linarith
  with e1' e2' e3' have "\<bar>x - (x1 + q * dx)\<bar> \<le> 2 * B / 2 ^ 53 + 6 * B / 2 ^ 53 + 12 * B / 2 ^ 53"
    by linarith
  then show ?thesis by (simp add: field_simps)
qed

lemma stored_coordinate_error:
  fixes x1 dx q :: real
  assumes x: "x = double_round (x1 + double_round (double_round q * dx))"
    and stored: "in_int32 (py_int x)" and x1b: "\<bar>x1\<bar> \<le> 2147483648"
  shows "\<bar>real_of_int (py_int x) - (x1 + q * dx)\<bar> < 1 + 1 / 100000"
proof -
  have c: "\<bar>real_of_int (py_int x) - x\<bar> < 1" by (rule py_int_close)
  from stored have "\<bar>real_of_int (py_int x)\<bar> \<le> 2147483648"
    unfolding in_int32_def by linarith
  with c have xb: "\<bar>x\<bar> \<le> 2147483649" by linarith
  from x1b have x1b': "\<bar>x1\<bar> \<le> 2147483649" by linarith
  have "\<bar>x - (x1 + q * dx)\<bar> \<le> 20 * 2147483649 / 2 ^ 53"
    by (rule rounded_affine_error [OF x xb x1b'])
  also have "\<dots> < 1 / 100000" by simp
  finally show ?thesis using c by linarith
qed

text \<open>The same coordinate, from the size of the exact value.\<close>

lemma affine_forward_error:
  fixes x1 dx q B :: real
  assumes x: "x = double_round (x1 + double_round (double_round q * dx))"
    and x1b: "\<bar>x1\<bar> \<le> B" and eb: "\<bar>x1 + q * dx\<bar> \<le> B"
  shows "\<bar>x - (x1 + q * dx)\<bar> \<le> 8 * B / 2 ^ 53"
proof -
  define u :: real where "u = 1 / 2 ^ 53"
  have u0: "0 < u" and u1: "u \<le> 1 / 1000" by (simp_all add: u_def)
  have B0: "0 \<le> B" using x1b by linarith
  define t where "t = double_round q"
  define w where "w = t * dx"
  define pr where "pr = double_round w"
  define s where "s = x1 + pr"
  define P where "P = q * dx"
  have xs: "x = double_round s" by (simp add: x s_def pr_def w_def t_def)
  have Pb: "\<bar>P\<bar> \<le> 2 * B" using x1b eb unfolding P_def by linarith
  have tq: "\<bar>t - q\<bar> \<le> u * \<bar>q\<bar>"
    unfolding t_def u_def by (rule double_round_rel)
  have "\<bar>w - P\<bar> = \<bar>t - q\<bar> * \<bar>dx\<bar>"
    by (simp add: w_def P_def abs_mult [symmetric] algebra_simps)
  also have "\<dots> \<le> u * \<bar>q\<bar> * \<bar>dx\<bar>"
    using tq by (intro mult_right_mono) simp_all
  also have "\<dots> = u * \<bar>P\<bar>" by (simp add: P_def abs_mult)
  finally have e3: "\<bar>w - P\<bar> \<le> u * \<bar>P\<bar>" .
  have "u * \<bar>P\<bar> \<le> u * (2 * B)" using Pb u0 by (intro mult_left_mono) simp_all
  with e3 have e3': "\<bar>w - P\<bar> \<le> 2 * (u * B)" by linarith
  have "u * B \<le> 1 / 1000 * B" using u1 B0 by (rule mult_right_mono)
  then have uB: "u * B \<le> B / 1000" by simp
  have wb: "\<bar>w\<bar> \<le> 3 * B" using e3' Pb uB by linarith
  have e2: "\<bar>pr - w\<bar> \<le> u * \<bar>w\<bar>"
    unfolding pr_def u_def by (rule double_round_rel)
  have "u * \<bar>w\<bar> \<le> u * (3 * B)" using wb u0 by (intro mult_left_mono) simp_all
  with e2 have e2': "\<bar>pr - w\<bar> \<le> 3 * (u * B)" by linarith
  have sP: "\<bar>s - (x1 + P)\<bar> \<le> 5 * (u * B)"
    using e2' e3' unfolding s_def by linarith
  have sb: "\<bar>s\<bar> \<le> 2 * B" using sP eb uB unfolding P_def by linarith
  have e1: "\<bar>x - s\<bar> \<le> u * \<bar>s\<bar>"
    unfolding xs u_def by (rule double_round_rel)
  have "u * \<bar>s\<bar> \<le> u * (2 * B)" using sb u0 by (intro mult_left_mono) simp_all
  with e1 have e1': "\<bar>x - s\<bar> \<le> 2 * (u * B)" by linarith
  have "\<bar>x - (x1 + P)\<bar> \<le> 7 * (u * B)" using e1' sP by linarith
  also have "\<dots> \<le> 8 * (u * B)" using u0 B0 by simp
  finally show ?thesis by (simp add: P_def u_def)
qed

text \<open>The coordinate \<open>ex + dx * (len / dist)\<close> of a walk along a line.\<close>

lemma sqrt_perturbation:
  fixes R Sf u :: real
  assumes R: "0 < R" and Sf: "\<bar>Sf - R * R\<bar> \<le> u * (R * R)" and u: "0 \<le> u" "u \<le> 1 / 2"
  shows "\<bar>sqrt Sf - R\<bar> \<le> u * R"
proof -
  have Sfpos: "0 \<le> Sf"
  proof -
    have "u * (R * R) \<le> R * R" using u R by (simp add: mult_left_le_one_le)
    with Sf show ?thesis by linarith
  qed
  define a where "a = sqrt Sf"
  have a0: "0 \<le> a" using Sfpos by (simp add: a_def)
  have aa: "a * a = Sf" using Sfpos by (simp add: a_def)
  have "\<bar>a - R\<bar> * R \<le> \<bar>a - R\<bar> * (a + R)"
    using a0 by (intro mult_left_mono) simp_all
  also have "\<dots> = \<bar>(a - R) * (a + R)\<bar>"
    using a0 R by (simp add: abs_mult)
  also have "(a - R) * (a + R) = Sf - R * R"
    by (simp add: aa [symmetric] algebra_simps)
  also have "\<bar>Sf - R * R\<bar> \<le> u * (R * R)" by (rule Sf)
  finally have "\<bar>a - R\<bar> * R \<le> (u * R) * R" by (simp add: mult.assoc)
  then have "\<bar>a - R\<bar> \<le> u * R"
    using R by (rule mult_right_le_imp_le)
  then show ?thesis by (simp add: a_def)
qed

lemma walk_coordinate_error:
  fixes R Sf L dxr ex M :: real
  assumes R: "0 < R"
    and Sf: "\<bar>Sf - R * R\<bar> \<le> (1 / 2 ^ 53) * (R * R)"
    and d: "d = double_round (sqrt Sf)"
    and ratio: "ratio = double_round (L / d)"
    and pr: "pr = double_round (dxr * ratio)"
    and x: "x = double_round (ex + pr)"
    and dxb: "\<bar>dxr\<bar> \<le> R" and Lb: "\<bar>L\<bar> \<le> M" and exb: "\<bar>ex\<bar> \<le> M"
  shows "0 < d \<and> \<bar>x - (ex + dxr * L / R)\<bar> \<le> 13 * M / 2 ^ 53"
proof -
  define u :: real where "u = 1 / 2 ^ 53"
  have u0: "0 < u" and u1: "u \<le> 1 / 1000" by (simp_all add: u_def)
  have M0: "0 \<le> M" using Lb by linarith
  define a where "a = sqrt Sf"
  have aR: "\<bar>a - R\<bar> \<le> u * R"
    unfolding a_def using R Sf u0 u1 by (intro sqrt_perturbation) (simp_all add: u_def)
  have uR: "u * R \<le> R / 1000" using u1 R by (simp add: mult_right_mono)
  have a_up: "\<bar>a\<bar> \<le> 2 * R" using aR uR by linarith
  have da: "\<bar>d - a\<bar> \<le> u * \<bar>a\<bar>"
    unfolding d a_def u_def by (rule double_round_rel)
  have "u * \<bar>a\<bar> \<le> u * (2 * R)" using a_up u0 by (intro mult_left_mono) simp_all
  with da aR have dR: "\<bar>d - R\<bar> \<le> 3 * (u * R)" by linarith
  have dlow: "R / 2 \<le> d" using dR uR by linarith
  have dpos: "0 < d" using dlow R by linarith
  have inv: "\<bar>1 / d - 1 / R\<bar> \<le> 6 * u / R"
  proof -
    have "1 / d - 1 / R = (R - d) / (d * R)"
      using dpos R by (simp add: field_simps)
    then have "\<bar>1 / d - 1 / R\<bar> = \<bar>d - R\<bar> / (d * R)"
      using dpos R by (simp add: abs_mult abs_minus_commute)
    also have "\<dots> \<le> 3 * (u * R) / (d * R)"
      using dR dpos R by (intro divide_right_mono) simp_all
    also have "\<dots> = 3 * u / d" using R by simp
    also have "\<dots> \<le> 3 * u / (R / 2)"
      using dlow R u0 by (intro divide_left_mono) simp_all
    also have "\<dots> = 6 * u / R" by simp
    finally show ?thesis .
  qed
  have invd: "1 / d \<le> 2 / R"
    using dlow R dpos by (simp add: field_simps)
  have e4: "\<bar>L / d - L / R\<bar> \<le> 6 * u * \<bar>L\<bar> / R"
  proof -
    have "L / d - L / R = L * (1 / d - 1 / R)" by (simp add: algebra_simps)
    then have "\<bar>L / d - L / R\<bar> = \<bar>L\<bar> * \<bar>1 / d - 1 / R\<bar>" by (simp add: abs_mult)
    also have "\<dots> \<le> \<bar>L\<bar> * (6 * u / R)" using inv by (intro mult_left_mono) simp_all
    finally show ?thesis by (simp add: algebra_simps)
  qed
  have Ld: "\<bar>L / d\<bar> \<le> 2 * \<bar>L\<bar> / R"
  proof -
    have "\<bar>L / d\<bar> = \<bar>L\<bar> * (1 / d)" using dpos by simp
    also have "\<dots> \<le> \<bar>L\<bar> * (2 / R)" using invd by (intro mult_left_mono) simp_all
    also have "\<dots> = 2 * \<bar>L\<bar> / R" by simp
    finally show ?thesis .
  qed
  have e5: "\<bar>ratio - L / d\<bar> \<le> u * \<bar>L / d\<bar>"
    unfolding ratio u_def by (rule double_round_rel)
  have "u * \<bar>L / d\<bar> \<le> u * (2 * \<bar>L\<bar> / R)" using Ld u0 by (intro mult_left_mono) simp_all
  with e5 have e5': "\<bar>ratio - L / d\<bar> \<le> 2 * u * \<bar>L\<bar> / R" by (simp add: algebra_simps)
  have "\<bar>ratio - L / R\<bar> \<le> 2 * u * \<bar>L\<bar> / R + 6 * u * \<bar>L\<bar> / R"
    by (rule abs_triangle_chain [OF e5' e4])
  then have e6: "\<bar>ratio - L / R\<bar> \<le> 8 * u * \<bar>L\<bar> / R" by (simp add: field_simps)
  define P where "P = dxr * L / R"
  define w where "w = dxr * ratio"
  have Pb: "\<bar>P\<bar> \<le> \<bar>L\<bar>"
  proof -
    have "\<bar>P\<bar> = \<bar>dxr\<bar> / R * \<bar>L\<bar>" using R by (simp add: P_def abs_mult)
    also have "\<dots> \<le> 1 * \<bar>L\<bar>" using dxb R by (intro mult_right_mono) simp_all
    finally show ?thesis by simp
  qed
  have e7: "\<bar>w - P\<bar> \<le> 8 * u * \<bar>L\<bar>"
  proof -
    have "w - P = dxr * (ratio - L / R)" by (simp add: w_def P_def algebra_simps)
    then have "\<bar>w - P\<bar> = \<bar>dxr\<bar> * \<bar>ratio - L / R\<bar>" by (simp add: abs_mult)
    also have "\<dots> \<le> R * (8 * u * \<bar>L\<bar> / R)"
      using dxb e6 by (intro mult_mono) simp_all
    also have "\<dots> = 8 * u * \<bar>L\<bar>" using R by simp
    finally show ?thesis .
  qed
  have "8 * u \<le> 1" using u1 by linarith
  then have "8 * u * \<bar>L\<bar> \<le> 1 * \<bar>L\<bar>" by (intro mult_right_mono) simp_all
  then have "8 * u * \<bar>L\<bar> \<le> \<bar>L\<bar>" by simp
  with e7 Pb have wb: "\<bar>w\<bar> \<le> 2 * \<bar>L\<bar>" by linarith
  have e8: "\<bar>pr - w\<bar> \<le> u * \<bar>w\<bar>"
    unfolding pr w_def u_def by (rule double_round_rel)
  have "u * \<bar>w\<bar> \<le> u * (2 * \<bar>L\<bar>)" using wb u0 by (intro mult_left_mono) simp_all
  with e8 e7 have e9: "\<bar>pr - P\<bar> \<le> 10 * u * \<bar>L\<bar>" by linarith
  have "10 * u \<le> 1" using u1 by linarith
  then have "10 * u * \<bar>L\<bar> \<le> 1 * \<bar>L\<bar>" by (intro mult_right_mono) simp_all
  then have "10 * u * \<bar>L\<bar> \<le> \<bar>L\<bar>" by simp
  with e9 Pb have prb: "\<bar>pr\<bar> \<le> 2 * \<bar>L\<bar>" by linarith
  have e10: "\<bar>x - (ex + pr)\<bar> \<le> u * \<bar>ex + pr\<bar>"
    unfolding x u_def by (rule double_round_rel)
  have "\<bar>ex + pr\<bar> \<le> 3 * M" using prb exb Lb by linarith
  then have "u * \<bar>ex + pr\<bar> \<le> u * (3 * M)" using u0 by (intro mult_left_mono) simp_all
  with e10 have e10': "\<bar>x - (ex + pr)\<bar> \<le> 3 * u * M" by linarith
  have "10 * u * \<bar>L\<bar> \<le> 10 * u * M" using Lb u0 by (intro mult_left_mono) simp_all
  with e9 have e9': "\<bar>pr - P\<bar> \<le> 10 * u * M" by linarith
  have "x - (ex + P) = (x - (ex + pr)) + (pr - P)" by simp
  then have "\<bar>x - (ex + P)\<bar> \<le> 13 * u * M" using e10' e9' by linarith
  then have "\<bar>x - (ex + dxr * L / R)\<bar> \<le> 13 * M / 2 ^ 53"
    by (simp add: P_def u_def)
  with dpos show ?thesis by simp
qed

subsection \<open>Evaluating the two line functions\<close>

text \<open>
  Both \<^verbatim>\<open>line_intersection\<close> methods on a nonzero denominator, and
  \<^verbatim>\<open>get_point_along_line\<close> on distinct points, one floating-point operation at a time.
\<close>

lemma line_intersection_eval:
  assumes den: "denominator a1 a2 b1 b2 = den" and nz: "den \<noteq> 0"
    and tn: "(qx a1 - qx b1) * (qy b1 - qy b2) - (qy a1 - qy b1) * (qx b1 - qx b2) = tn"
    and q: "real_of_int tn / real_of_int den = q"
    and t: "double_round q = t"
    and x1: "float_of_int (qx a1) = x1" and dx: "float_of_int (qx a2 - qx a1) = dx"
    and px: "double_round (t * dx) = px" and x: "double_round (x1 + px) = x"
    and y1: "float_of_int (qy a1) = y1" and dy: "float_of_int (qy a2 - qy a1) = dy"
    and py: "double_round (t * dy) = py" and y: "double_round (y1 + py) = y"
  shows "grid_line_intersection a1 a2 b1 b2 = make_QPoint (py_int x) (py_int y)"
    and "canvas_line_intersection a1 a2 b1 b2 = make_QPoint (py_int x) (py_int y)"
proof -
  have d: "(qx a1 - qx a2) * (qy b1 - qy b2) - (qy a1 - qy a2) * (qx b1 - qx b2) = den"
    using den by (simp add: denominator_def)
  show "grid_line_intersection a1 a2 b1 b2 = make_QPoint (py_int x) (py_int y)"
    unfolding grid_line_intersection_def Let_def d tn q t x1 dx px x y1 dy py y
    using nz by simp
  show "canvas_line_intersection a1 a2 b1 b2 = make_QPoint (py_int x) (py_int y)"
    unfolding canvas_line_intersection_def Let_def d tn q t x1 dx px x y1 dy py y
    using nz by simp
qed

lemma get_point_along_line_eval:
  assumes dxi: "qx endp - qx start = dxi" and dyi: "qy endp - qy start = dyi"
    and nz: "\<not> (dxi = 0 \<and> dyi = 0)"
    and s: "dxi\<^sup>2 + dyi\<^sup>2 = s" and fits: "s < 2 ^ 64"
    and sf: "float_of_int s = sf"
    and root: "sqrt sf = r"
    and dst: "double_round r = dst" and dnz: "dst \<noteq> 0"
    and len: "float_of_int len = lenf"
    and q: "lenf / dst = q"
    and ratio: "double_round q = ratio"
    and ex: "float_of_int (qx endp) = ex" and dx: "float_of_int dxi = dx"
    and px: "double_round (dx * ratio) = px" and x: "double_round (ex + px) = x"
    and ey: "float_of_int (qy endp) = ey" and dy: "float_of_int dyi = dy"
    and py: "double_round (dy * ratio) = py" and y: "double_round (ey + py) = y"
  shows "get_point_along_line start endp len = make_QPoint (py_int x) (py_int y)"
  unfolding get_point_along_line_def Let_def dxi dyi s sf root dst len q ratio ex dx px x ey dy py y
  using nz fits dnz by auto

lemma grid_canvas_agree:
  "denominator a1 a2 b1 b2 \<noteq> 0 \<Longrightarrow>
     canvas_line_intersection a1 a2 b1 b2 = grid_line_intersection a1 a2 b1 b2"
  by (simp add: denominator_def grid_line_intersection_def canvas_line_intersection_def Let_def)

lemma make_QPoint_Inr:
  "make_QPoint x y = Inr p \<Longrightarrow> p = QPoint x y \<and> in_int32 x \<and> in_int32 y"
  by (auto simp: make_QPoint_def split: if_splits)

lemma make_QPoint_Inl: "make_QPoint x y = Inl e \<Longrightarrow> e = OverflowError"
  by (auto simp: make_QPoint_def split: if_splits)

subsection \<open>Parallel lines\<close>

text \<open>
  C8.  When the denominator \<open>(x1-x2)(y3-y4) - (y1-y2)(x3-x4)\<close> is exactly zero, the
  vanishing-point variant of the line intersection returns the far point (10000, 10000) and
  the constrained-dragging variant returns the endpoint (x2, y2) of the first segment.  Both
  are total on this branch: no division is evaluated and no exception is raised.
\<close>

theorem parallel_lines_sentinel_and_endpoint:
  assumes "denominator a1 a2 b1 b2 = 0"
  shows "grid_line_intersection a1 a2 b1 b2 = Inr (QPoint 10000 10000)
       \<and> canvas_line_intersection a1 a2 b1 b2 = Inr (QPoint (qx a2) (qy a2))"
  using assms
  by (simp add: denominator_def grid_line_intersection_def canvas_line_intersection_def Let_def)

theorem parallel_lines_sentinel_and_endpoint_witness:
  "denominator (QPoint 0 0) (QPoint 4 2) (QPoint 1 5) (QPoint 3 6) = 0
   \<and> grid_line_intersection (QPoint 0 0) (QPoint 4 2) (QPoint 1 5) (QPoint 3 6)
       = Inr (QPoint 10000 10000)
   \<and> canvas_line_intersection (QPoint 0 0) (QPoint 4 2) (QPoint 1 5) (QPoint 3 6)
       = Inr (QPoint 4 2)"
  using parallel_lines_sentinel_and_endpoint
          [of "QPoint 0 0" "QPoint 4 2" "QPoint 1 5" "QPoint 3 6"]
  by (simp add: denominator_def)

subsection \<open>Vanishing points of a quadrilateral\<close>

text \<open>
  A list whose length is not 4 gives the empty result and leaves the grid as it is.  For
  four points \<open>p1..p4\<close>, when both calls of \<^verbatim>\<open>line_intersection\<close> return, the result is the
  pair of \<^verbatim>\<open>line_intersection(p1, p2, p3, p4)\<close> and \<^verbatim>\<open>line_intersection(p2, p3, p4, p1)\<close>,
  unless one of the two has both absolute coordinates below 10; then the result is empty.
  In both cases the result is also stored as the grid's \<^verbatim>\<open>primary_vp\<close>.  When one of the
  calls raises, so does the function.
\<close>

lemma calculate_two_point_perspective_wrong_length:
  "length ps \<noteq> 4 \<Longrightarrow> calculate_two_point_perspective g ps = Inr ([], g)"
  by (simp add: calculate_two_point_perspective_def)

lemma calculate_two_point_perspective_returns:
  assumes "grid_line_intersection p1 p2 p3 p4 = Inr v1"
    and "grid_line_intersection p2 p3 p4 p1 = Inr v2"
  shows "calculate_two_point_perspective g [p1, p2, p3, p4] =
           Inr (if (\<bar>qx v1\<bar> < 10 \<and> \<bar>qy v1\<bar> < 10) \<or> (\<bar>qx v2\<bar> < 10 \<and> \<bar>qy v2\<bar> < 10)
                then ([], g\<lparr>primary_vp := []\<rparr>)
                else ([v1, v2], g\<lparr>primary_vp := [v1, v2]\<rparr>))"
  using assms by (simp add: calculate_two_point_perspective_def valid_vp_def Let_def)

lemma calculate_two_point_perspective_raises:
  assumes "grid_line_intersection p1 p2 p3 p4 = Inl e
         \<or> (\<exists>v1. grid_line_intersection p1 p2 p3 p4 = Inr v1)
           \<and> grid_line_intersection p2 p3 p4 p1 = Inl e"
  shows "calculate_two_point_perspective g [p1, p2, p3, p4] = Inl e"
  using assms by (auto simp: calculate_two_point_perspective_def)

text \<open>The trapezoid (100,100), (300,100), (320,250), (80,250).\<close>

lemma trapezoid_side_intersection:
  "grid_line_intersection (QPoint 300 100) (QPoint 320 250) (QPoint 80 250) (QPoint 100 100)
     = Inr (QPoint 200 (- 650))"
proof -
  have "grid_line_intersection (QPoint 300 100) (QPoint 320 250) (QPoint 80 250) (QPoint 100 100)
      = make_QPoint (py_int 200) (py_int (- 650))"
    by (rule line_intersection_eval [where den = "- 6000" and tn = 30000 and q = "- 5"
          and t = "- 5" and ?x1.0 = 300 and dx = 20 and px = "- 100"
          and ?y1.0 = 100 and dy = 150 and py = "- 750"])
       (simp_all add: denominator_def float_of_int_def double_round_numeral
          double_round_neg_numeral)
  then show ?thesis by (simp add: make_QPoint_def in_int32_def py_int_def)
qed

lemma trapezoid_base_intersection:
  "grid_line_intersection (QPoint 100 100) (QPoint 300 100) (QPoint 320 250) (QPoint 80 250)
     = Inr (QPoint 10000 10000)"
  by (simp add: grid_line_intersection_def Let_def)

lemma trapezoid_vanishing_points:
  "calculate_two_point_perspective \<lparr>enabled = True, primary_vp = []\<rparr>
       [QPoint 100 100, QPoint 300 100, QPoint 320 250, QPoint 80 250]
     = Inr ([QPoint 10000 10000, QPoint 200 (- 650)],
        \<lparr>enabled = True, primary_vp = [QPoint 10000 10000, QPoint 200 (- 650)]\<rparr>)"
  using calculate_two_point_perspective_returns
          [OF trapezoid_base_intersection trapezoid_side_intersection]
  by simp

text \<open>
  The quadrilateral (5,22), (20,20), (-32,-6), (-10,5).  Its second pair of sides meets at
  (-10, 5) exactly; the doubles give -9.999999999999996, stored as -9, and the guard
  rejects the pair.
\<close>

lemma rounded_below_ten_intersection:
  "grid_line_intersection (QPoint 20 20) (QPoint (- 32) (- 6)) (QPoint (- 10) 5) (QPoint 5 22)
     = Inr (QPoint (- 9) 5)"
proof -
  have t: "double_round (15 / 26) = 5196461108504418 / 2 ^ 53"
    by (subst double_round_scaled_down [of _ 53]) (simp_all add: round_half_even_def)
  have px: "double_round (5196461108504418 / 2 ^ 53 * (- 52)) = - 8444249301319679 / 2 ^ 48"
    by (subst double_round_scaled_down [of _ 48]) (simp_all add: round_half_even_def)
  have x: "double_round (20 + - 8444249301319679 / 2 ^ 48) = - 5629499534213118 / 2 ^ 49"
    by (subst double_round_scaled_down [of _ 49]) (simp_all add: round_half_even_def)
  have py: "double_round (5196461108504418 / 2 ^ 53 * (- 26)) = - 8444249301319679 / 2 ^ 49"
    by (subst double_round_scaled_down [of _ 49]) (simp_all add: round_half_even_def)
  have y: "double_round (20 + - 8444249301319679 / 2 ^ 49) = 5629499534213122 / 2 ^ 50"
    by (subst double_round_scaled_down [of _ 50]) (simp_all add: round_half_even_def)
  have "grid_line_intersection (QPoint 20 20) (QPoint (- 32) (- 6)) (QPoint (- 10) 5) (QPoint 5 22)
      = make_QPoint (py_int (- 5629499534213118 / 2 ^ 49)) (py_int (5629499534213122 / 2 ^ 50))"
    by (rule line_intersection_eval [where den = "- 494" and tn = "- 285" and q = "15 / 26"
          and ?x1.0 = 20 and dx = "- 52" and ?y1.0 = 20 and dy = "- 26",
          OF _ _ _ _ t _ _ px x _ _ py y])
       (simp_all add: denominator_def float_of_int_def double_round_numeral
          double_round_neg_numeral)
  then show ?thesis by (simp add: make_QPoint_def in_int32_def py_int_def)
qed

lemma exact_side_intersection:
  "grid_line_intersection (QPoint 5 22) (QPoint 20 20) (QPoint (- 32) (- 6)) (QPoint (- 10) 5)
     = Inr (QPoint 20 20)"
proof -
  have "grid_line_intersection (QPoint 5 22) (QPoint 20 20) (QPoint (- 32) (- 6)) (QPoint (- 10) 5)
      = make_QPoint (py_int 20) (py_int 20)"
    by (rule line_intersection_eval [where den = 209 and tn = 209 and q = 1
          and t = 1 and ?x1.0 = 5 and dx = 15 and px = 15
          and ?y1.0 = 22 and dy = "- 2" and py = "- 2"])
       (simp_all add: denominator_def float_of_int_def double_round_numeral
          double_round_neg_numeral double_round_one)
  then show ?thesis by (simp add: make_QPoint_def in_int32_def py_int_def)
qed

lemma rounded_intersection_rejected:
  "calculate_two_point_perspective \<lparr>enabled = True, primary_vp = [QPoint 50 60]\<rparr>
       [QPoint 5 22, QPoint 20 20, QPoint (- 32) (- 6), QPoint (- 10) 5]
     = Inr ([], \<lparr>enabled = True, primary_vp = []\<rparr>)"
  using calculate_two_point_perspective_returns
          [OF exact_side_intersection rounded_below_ten_intersection]
  by simp

text \<open>
  C2.  The specification: for exactly four points \<open>p1..p4\<close> the vanishing-point computation
  returns the pair of the intersection of line(p1,p2) with line(p3,p4) and of the
  intersection of line(p2,p3) with line(p4,p1), or the empty pair under the guard.  The
  code does not on the quadrilateral (0,0), (3000,2999), (3001,4500), (0,1500).  Its first
  pair of sides is not parallel: the denominator is -1 and the lines meet at
  (-13504500000, -13499998500).  The source computes both coordinates exactly and passes
  them to \<^verbatim>\<open>QPoint\<close>, which cannot store them and raises \<^verbatim>\<open>OverflowError\<close>; the function
  returns nothing and the grid's \<^verbatim>\<open>primary_vp\<close> is not assigned.  On parallel sides the
  same method returns the far point instead.
\<close>

theorem calculate_two_point_perspective_overflow:
  "denominator (QPoint 0 0) (QPoint 3000 2999) (QPoint 3001 4500) (QPoint 0 1500) = - 1
   \<and> exact_intersection (QPoint 0 0) (QPoint 3000 2999) (QPoint 3001 4500) (QPoint 0 1500)
       = (- 13504500000, - 13499998500)
   \<and> grid_line_intersection (QPoint 0 0) (QPoint 3000 2999) (QPoint 3001 4500) (QPoint 0 1500)
       = Inl OverflowError
   \<and> calculate_two_point_perspective \<lparr>enabled = True, primary_vp = []\<rparr>
       [QPoint 0 0, QPoint 3000 2999, QPoint 3001 4500, QPoint 0 1500]
       = Inl OverflowError"
proof -
  have "grid_line_intersection (QPoint 0 0) (QPoint 3000 2999) (QPoint 3001 4500) (QPoint 0 1500)
      = make_QPoint (py_int (- 13504500000)) (py_int (- 13499998500))"
    by (rule line_intersection_eval [where den = "- 1" and tn = 4501500 and q = "- 4501500"
          and t = "- 4501500" and ?x1.0 = 0 and dx = 3000 and px = "- 13504500000"
          and ?y1.0 = 0 and dy = 2999 and py = "- 13499998500"])
       (simp_all add: denominator_def float_of_int_def double_round_numeral
          double_round_neg_numeral double_round_zero)
  then have g: "grid_line_intersection (QPoint 0 0) (QPoint 3000 2999) (QPoint 3001 4500)
      (QPoint 0 1500) = Inl OverflowError"
    by (simp add: make_QPoint_def in_int32_def py_int_def)
  have c: "calculate_two_point_perspective \<lparr>enabled = True, primary_vp = []\<rparr>
       [QPoint 0 0, QPoint 3000 2999, QPoint 3001 4500, QPoint 0 1500] = Inl OverflowError"
    by (rule calculate_two_point_perspective_raises) (simp add: g)
  show ?thesis
    using g c by (simp add: denominator_def exact_intersection_def Let_def)
qed

subsection \<open>Intersection of two lines that are not parallel\<close>

lemma exact_on_first:
  "line_residual a1 a2 (fst (exact_intersection a1 a2 b1 b2))
           (snd (exact_intersection a1 a2 b1 b2)) = 0"
proof -
  define t where "t = real_of_int ((qx a1 - qx b1) * (qy b1 - qy b2) - (qy a1 - qy b1) * (qx b1 - qx b2))
      / real_of_int ((qx a1 - qx a2) * (qy b1 - qy b2) - (qy a1 - qy a2) * (qx b1 - qx b2))"
  have u: "exact_intersection a1 a2 b1 b2 =
      (real_of_int (qx a1) + t * real_of_int (qx a2 - qx a1),
       real_of_int (qy a1) + t * real_of_int (qy a2 - qy a1))"
    by (simp only: exact_intersection_def Let_def t_def)
  show ?thesis
    by (simp add: u line_residual_def)
qed

lemma exact_on_second:
  assumes "denominator a1 a2 b1 b2 \<noteq> 0"
  shows "line_residual b1 b2 (fst (exact_intersection a1 a2 b1 b2))
           (snd (exact_intersection a1 a2 b1 b2)) = 0"
proof -
  define x1 where "x1 = real_of_int (qx a1)"
  define y1 where "y1 = real_of_int (qy a1)"
  define x2 where "x2 = real_of_int (qx a2)"
  define y2 where "y2 = real_of_int (qy a2)"
  define x3 where "x3 = real_of_int (qx b1)"
  define y3 where "y3 = real_of_int (qy b1)"
  define x4 where "x4 = real_of_int (qx b2)"
  define y4 where "y4 = real_of_int (qy b2)"
  define den where "den = (x1 - x2) * (y3 - y4) - (y1 - y2) * (x3 - x4)"
  define tn where "tn = (x1 - x3) * (y3 - y4) - (y1 - y3) * (x3 - x4)"
  have dn: "den \<noteq> 0"
  proof -
    have "den = real_of_int (denominator a1 a2 b1 b2)"
      by (simp add: den_def denominator_def x1_def x2_def x3_def x4_def y1_def y2_def y3_def y4_def)
    with assms show ?thesis by simp
  qed
  have u: "exact_intersection a1 a2 b1 b2 = (x1 + tn / den * (x2 - x1), y1 + tn / den * (y2 - y1))"
    by (simp add: exact_intersection_def Let_def den_def tn_def x1_def x2_def x3_def x4_def y1_def y2_def y3_def y4_def)
  have "den * ((x4 - x3) * (y1 + tn / den * (y2 - y1) - y3) - (y4 - y3) * (x1 + tn / den * (x2 - x1) - x3))
       = (x4 - x3) * (den * (y1 - y3) + tn * (y2 - y1)) - (y4 - y3) * (den * (x1 - x3) + tn * (x2 - x1))"
    using dn by (simp add: field_simps)
  also have "\<dots> = 0"
    unfolding den_def tn_def by (simp add: algebra_simps)
  finally have "(x4 - x3) * (y1 + tn / den * (y2 - y1) - y3) - (y4 - y3) * (x1 + tn / den * (x2 - x1) - x3) = 0"
    using dn by simp
  then show ?thesis
    by (simp add: u line_residual_def x1_def x2_def x3_def x4_def y1_def y2_def y3_def y4_def)
qed

lemma in_int32_abs: "in_int32 n \<Longrightarrow> \<bar>real_of_int n\<bar> \<le> 2147483648"
  by (auto simp: in_int32_def)

lemma py_int_abs_le: "\<bar>real_of_int (py_int r)\<bar> \<le> \<bar>r\<bar>"
  unfolding py_int_def by (auto; linarith)

lemma py_int_in_int32:
  assumes "\<bar>r\<bar> < 2147483647"
  shows "in_int32 (py_int r)"
proof -
  have "\<bar>real_of_int (py_int r)\<bar> < 2147483647"
    using py_int_abs_le [of r] assms by linarith
  then show ?thesis unfolding in_int32_def by linarith
qed

text \<open>
  On a nonzero denominator both variants build the point from the rounded coordinates
  \<open>x1 + t (x2 - x1)\<close> and \<open>y1 + t (y2 - y1)\<close>, with \<open>t\<close> the rounded quotient.
\<close>

lemma line_intersection_rounded_form:
  assumes v1: "valid_QPoint a1" and v2: "valid_QPoint a2"
    and nz: "denominator a1 a2 b1 b2 \<noteq> 0"
    and q: "q = real_of_int ((qx a1 - qx b1) * (qy b1 - qy b2) - (qy a1 - qy b1) * (qx b1 - qx b2))
              / real_of_int (denominator a1 a2 b1 b2)"
    and x: "x = double_round (real_of_int (qx a1)
              + double_round (double_round q * real_of_int (qx a2 - qx a1)))"
    and y: "y = double_round (real_of_int (qy a1)
              + double_round (double_round q * real_of_int (qy a2 - qy a1)))"
  shows "canvas_line_intersection a1 a2 b1 b2 = make_QPoint (py_int x) (py_int y)"
    and "exact_intersection a1 a2 b1 b2 =
           (real_of_int (qx a1) + q * real_of_int (qx a2 - qx a1),
            real_of_int (qy a1) + q * real_of_int (qy a2 - qy a1))"
proof -
  from v1 v2 have i: "in_int32 (qx a1)" "in_int32 (qy a1)" "in_int32 (qx a2)" "in_int32 (qy a2)"
    by (simp_all add: valid_QPoint_def)
  show "canvas_line_intersection a1 a2 b1 b2 = make_QPoint (py_int x) (py_int y)"
    by (rule line_intersection_eval(2) [OF refl nz refl q [symmetric] refl
          float_of_int32 [OF i(1)] float_of_int32_diff [OF i(3) i(1)] refl x [symmetric]
          float_of_int32 [OF i(2)] float_of_int32_diff [OF i(4) i(2)] refl y [symmetric]])
  show "exact_intersection a1 a2 b1 b2 =
           (real_of_int (qx a1) + q * real_of_int (qx a2 - qx a1),
            real_of_int (qy a1) + q * real_of_int (qy a2 - qy a1))"
    by (simp add: exact_intersection_def Let_def q denominator_def)
qed

lemma canvas_line_intersection_near:
  assumes v1: "valid_QPoint a1" and v2: "valid_QPoint a2"
    and nz: "denominator a1 a2 b1 b2 \<noteq> 0"
    and r: "canvas_line_intersection a1 a2 b1 b2 = Inr p"
  shows "near_point p (exact_intersection a1 a2 b1 b2)"
proof -
  define q where "q = real_of_int ((qx a1 - qx b1) * (qy b1 - qy b2) - (qy a1 - qy b1) * (qx b1 - qx b2))
              / real_of_int (denominator a1 a2 b1 b2)"
  define x where "x = double_round (real_of_int (qx a1)
              + double_round (double_round q * real_of_int (qx a2 - qx a1)))"
  define y where "y = double_round (real_of_int (qy a1)
              + double_round (double_round q * real_of_int (qy a2 - qy a1)))"
  note f = line_intersection_rounded_form [OF v1 v2 nz q_def x_def y_def]
  from r f(1) have "make_QPoint (py_int x) (py_int y) = Inr p" by simp
  then have p: "p = QPoint (py_int x) (py_int y)" and sx: "in_int32 (py_int x)"
    and sy: "in_int32 (py_int y)"
    using make_QPoint_Inr by blast+
  from v1 have bnx: "\<bar>real_of_int (qx a1)\<bar> \<le> 2147483648" and bny: "\<bar>real_of_int (qy a1)\<bar> \<le> 2147483648"
    by (simp_all add: valid_QPoint_def in_int32_abs)
  have "\<bar>real_of_int (py_int x) - (real_of_int (qx a1) + q * real_of_int (qx a2 - qx a1))\<bar>
          < 1 + 1 / 100000"
    by (rule stored_coordinate_error [OF x_def sx bnx])
  moreover have "\<bar>real_of_int (py_int y) - (real_of_int (qy a1) + q * real_of_int (qy a2 - qy a1))\<bar>
          < 1 + 1 / 100000"
    by (rule stored_coordinate_error [OF y_def sy bny])
  ultimately show ?thesis
    unfolding near_point_def f(2) p by simp
qed

lemma canvas_line_intersection_returns:
  assumes v1: "valid_QPoint a1" and v2: "valid_QPoint a2"
    and nz: "denominator a1 a2 b1 b2 \<noteq> 0"
    and ex: "\<bar>fst (exact_intersection a1 a2 b1 b2)\<bar> \<le> 2147483646"
    and ey: "\<bar>snd (exact_intersection a1 a2 b1 b2)\<bar> \<le> 2147483646"
  shows "\<exists>p. canvas_line_intersection a1 a2 b1 b2 = Inr p"
proof -
  define q where "q = real_of_int ((qx a1 - qx b1) * (qy b1 - qy b2) - (qy a1 - qy b1) * (qx b1 - qx b2))
              / real_of_int (denominator a1 a2 b1 b2)"
  define x where "x = double_round (real_of_int (qx a1)
              + double_round (double_round q * real_of_int (qx a2 - qx a1)))"
  define y where "y = double_round (real_of_int (qy a1)
              + double_round (double_round q * real_of_int (qy a2 - qy a1)))"
  define Ex where "Ex = real_of_int (qx a1) + q * real_of_int (qx a2 - qx a1)"
  define Ey where "Ey = real_of_int (qy a1) + q * real_of_int (qy a2 - qy a1)"
  note f = line_intersection_rounded_form [OF v1 v2 nz q_def x_def y_def]
  from v1 have bnx: "\<bar>real_of_int (qx a1)\<bar> \<le> 2147483648" and bny: "\<bar>real_of_int (qy a1)\<bar> \<le> 2147483648"
    by (simp_all add: valid_QPoint_def in_int32_abs)
  have small: "(8 * 2147483648 / 2 ^ 53 :: real) < 1 / 2" by simp
  from ex have ex1: "\<bar>Ex\<bar> \<le> 2147483646"
    unfolding f(2) Ex_def by (simp only: fst_conv)
  from ey have ey1: "\<bar>Ey\<bar> \<le> 2147483646"
    unfolding f(2) Ey_def by (simp only: snd_conv)
  from ex1 have ex2: "\<bar>Ex\<bar> \<le> 2147483648" by linarith
  from ey1 have ey2: "\<bar>Ey\<bar> \<le> 2147483648" by linarith
  have "\<bar>x - Ex\<bar> \<le> 8 * 2147483648 / 2 ^ 53"
    unfolding Ex_def by (rule affine_forward_error [OF x_def bnx ex2 [unfolded Ex_def]])
  with small ex1 have "\<bar>x\<bar> < 2147483647" by linarith
  then have sx: "in_int32 (py_int x)" by (rule py_int_in_int32)
  have "\<bar>y - Ey\<bar> \<le> 8 * 2147483648 / 2 ^ 53"
    unfolding Ey_def by (rule affine_forward_error [OF y_def bny ey2 [unfolded Ey_def]])
  with small ey1 have "\<bar>y\<bar> < 2147483647" by linarith
  then have sy: "in_int32 (py_int y)" by (rule py_int_in_int32)
  show ?thesis
    unfolding f(1) using sx sy by (simp add: make_QPoint_def)
qed

text \<open>The only exception of either variant is the one of the \<^verbatim>\<open>QPoint\<close> constructor.\<close>

lemma line_intersection_only_overflows:
  "grid_line_intersection a1 a2 b1 b2 = Inl e \<Longrightarrow> e = OverflowError"
  "canvas_line_intersection a1 a2 b1 b2 = Inl e \<Longrightarrow> e = OverflowError"
  by (auto simp: grid_line_intersection_def canvas_line_intersection_def Let_def
        make_QPoint_def split: if_splits)

text \<open>
  The lines through (0,0), (1,11) and through (0,15), (1,15) meet at (15/11, 15) exactly.
  The doubles give \<open>t = 1.3636363636363635\<close> and \<open>y = 14.999999999999998\<close>, and the
  source returns (1, 14): the rounding before the truncation can cost a whole unit.
\<close>

lemma rounding_costs_a_unit:
  "grid_line_intersection (QPoint 0 0) (QPoint 1 11) (QPoint 0 15) (QPoint 1 15)
     = Inr (QPoint 1 14)
   \<and> exact_intersection (QPoint 0 0) (QPoint 1 11) (QPoint 0 15) (QPoint 1 15) = (15 / 11, 15)"
proof -
  have t: "double_round (15 / 11) = 6141272219141585 / 2 ^ 52"
    by (subst double_round_scaled_down [of _ 52]) (simp_all add: round_half_even_def)
  have px: "double_round (6141272219141585 / 2 ^ 52 * 1) = 6141272219141585 / 2 ^ 52"
    using double_round_dyadic [of 6141272219141585 52] by simp
  have x: "double_round (0 + 6141272219141585 / 2 ^ 52) = 6141272219141585 / 2 ^ 52"
    using double_round_dyadic [of 6141272219141585 52] by simp
  have py: "double_round (6141272219141585 / 2 ^ 52 * 11) = 8444249301319679 / 2 ^ 49"
    by (subst double_round_scaled_down [of _ 49]) (simp_all add: round_half_even_def)
  have y: "double_round (0 + 8444249301319679 / 2 ^ 49) = 8444249301319679 / 2 ^ 49"
    using double_round_dyadic [of 8444249301319679 49] by simp
  have "grid_line_intersection (QPoint 0 0) (QPoint 1 11) (QPoint 0 15) (QPoint 1 15)
      = make_QPoint (py_int (6141272219141585 / 2 ^ 52)) (py_int (8444249301319679 / 2 ^ 49))"
    by (rule line_intersection_eval [where den = "- 11" and tn = "- 15" and q = "15 / 11"
          and ?x1.0 = 0 and dx = 1 and ?y1.0 = 0 and dy = 11,
          OF _ _ _ _ t _ _ px x _ _ py y])
       (simp_all add: denominator_def float_of_int_def double_round_numeral
          double_round_zero double_round_one)
  then show ?thesis
    by (simp add: make_QPoint_def in_int32_def py_int_def exact_intersection_def Let_def)
qed

text \<open>
  C5, as stated, fails: the returned point has its coordinates truncated to integers, so it
  need not satisfy the line equations.  The lines through (0,0),(2,1) and through (1,0),(1,5)
  meet at (1, 1/2); both variants return (1, 0), whose residual in the first line's equation
  is -1.
\<close>

theorem line_intersection_residual_counterexample:
  "denominator (QPoint 0 0) (QPoint 2 1) (QPoint 1 0) (QPoint 1 5) \<noteq> 0
   \<and> exact_intersection (QPoint 0 0) (QPoint 2 1) (QPoint 1 0) (QPoint 1 5) = (1, 1 / 2)
   \<and> grid_line_intersection (QPoint 0 0) (QPoint 2 1) (QPoint 1 0) (QPoint 1 5) = Inr (QPoint 1 0)
   \<and> canvas_line_intersection (QPoint 0 0) (QPoint 2 1) (QPoint 1 0) (QPoint 1 5) = Inr (QPoint 1 0)
   \<and> line_residual (QPoint 0 0) (QPoint 2 1)
         (real_of_int (qx (QPoint 1 0))) (real_of_int (qy (QPoint 1 0))) = - 1"
proof -
  have g: "grid_line_intersection (QPoint 0 0) (QPoint 2 1) (QPoint 1 0) (QPoint 1 5)
      = make_QPoint (py_int 1) (py_int (1 / 2))"
    by (rule line_intersection_eval(1) [where den = 10 and tn = 5 and q = "1 / 2"
          and t = "1 / 2" and ?x1.0 = 0 and dx = 2 and px = 1
          and ?y1.0 = 0 and dy = 1 and py = "1 / 2"])
       (simp_all add: denominator_def float_of_int_def double_round_numeral
          double_round_zero double_round_one double_round_half)
  have c: "canvas_line_intersection (QPoint 0 0) (QPoint 2 1) (QPoint 1 0) (QPoint 1 5)
      = make_QPoint (py_int 1) (py_int (1 / 2))"
    by (rule line_intersection_eval(2) [where den = 10 and tn = 5 and q = "1 / 2"
          and t = "1 / 2" and ?x1.0 = 0 and dx = 2 and px = 1
          and ?y1.0 = 0 and dy = 1 and py = "1 / 2"])
       (simp_all add: denominator_def float_of_int_def double_round_numeral
          double_round_zero double_round_one double_round_half)
  show ?thesis
    by (simp add: g c make_QPoint_def in_int32_def py_int_def denominator_def
          exact_intersection_def Let_def line_residual_def)
qed

text \<open>
  C5, amended.  For two lines through points with 32-bit coordinates and with a nonzero
  denominator, the exact intersection point satisfies both line equations with residual 0.
  Both \<^verbatim>\<open>line_intersection\<close> methods compute the same result.  When they return a point,
  each of its integer coordinates is less than \<open>1 + 1/100000\<close> away from the corresponding
  coordinate of the exact intersection: up to one unit is lost by the truncation toward
  zero and the rest by the rounding of the floating-point operations before it.  They
  return a point whenever both coordinates of the exact intersection are at most
  2147483646 in absolute value.  The returned integer point itself need not satisfy either
  equation.
\<close>

theorem line_intersection_within_one_of_exact_point:
  assumes "valid_QPoint a1" and "valid_QPoint a2" and "valid_QPoint b1" and "valid_QPoint b2"
    and "denominator a1 a2 b1 b2 \<noteq> 0"
  shows "line_residual a1 a2 (fst (exact_intersection a1 a2 b1 b2))
             (snd (exact_intersection a1 a2 b1 b2)) = 0
       \<and> line_residual b1 b2 (fst (exact_intersection a1 a2 b1 b2))
             (snd (exact_intersection a1 a2 b1 b2)) = 0
       \<and> canvas_line_intersection a1 a2 b1 b2 = grid_line_intersection a1 a2 b1 b2
       \<and> (\<forall>p. grid_line_intersection a1 a2 b1 b2 = Inr p \<longrightarrow>
             near_point p (exact_intersection a1 a2 b1 b2))
       \<and> (\<bar>fst (exact_intersection a1 a2 b1 b2)\<bar> \<le> 2147483646
            \<and> \<bar>snd (exact_intersection a1 a2 b1 b2)\<bar> \<le> 2147483646 \<longrightarrow>
             (\<exists>p. grid_line_intersection a1 a2 b1 b2 = Inr p))"
proof -
  note agree = grid_canvas_agree [OF assms(5)]
  have near: "\<forall>p. grid_line_intersection a1 a2 b1 b2 = Inr p \<longrightarrow>
             near_point p (exact_intersection a1 a2 b1 b2)"
    using canvas_line_intersection_near [OF assms(1,2,5)] unfolding agree by blast
  have ret: "\<bar>fst (exact_intersection a1 a2 b1 b2)\<bar> \<le> 2147483646
            \<and> \<bar>snd (exact_intersection a1 a2 b1 b2)\<bar> \<le> 2147483646 \<longrightarrow>
             (\<exists>p. grid_line_intersection a1 a2 b1 b2 = Inr p)"
    using canvas_line_intersection_returns [OF assms(1,2,5)] unfolding agree by blast
  from exact_on_first [of a1 a2 b1 b2] exact_on_second [OF assms(5)] agree near ret
  show ?thesis by blast
qed

theorem line_intersection_within_one_of_exact_point_witness:
  "valid_QPoint (QPoint 0 0) \<and> valid_QPoint (QPoint 1 11)
   \<and> valid_QPoint (QPoint 0 15) \<and> valid_QPoint (QPoint 1 15)
   \<and> denominator (QPoint 0 0) (QPoint 1 11) (QPoint 0 15) (QPoint 1 15) \<noteq> 0
   \<and> line_residual (QPoint 0 0) (QPoint 1 11)
        (fst (exact_intersection (QPoint 0 0) (QPoint 1 11) (QPoint 0 15) (QPoint 1 15)))
        (snd (exact_intersection (QPoint 0 0) (QPoint 1 11) (QPoint 0 15) (QPoint 1 15))) = 0
   \<and> line_residual (QPoint 0 15) (QPoint 1 15)
        (fst (exact_intersection (QPoint 0 0) (QPoint 1 11) (QPoint 0 15) (QPoint 1 15)))
        (snd (exact_intersection (QPoint 0 0) (QPoint 1 11) (QPoint 0 15) (QPoint 1 15))) = 0
   \<and> grid_line_intersection (QPoint 0 0) (QPoint 1 11) (QPoint 0 15) (QPoint 1 15)
       = Inr (QPoint 1 14)
   \<and> canvas_line_intersection (QPoint 0 0) (QPoint 1 11) (QPoint 0 15) (QPoint 1 15)
       = Inr (QPoint 1 14)
   \<and> near_point (QPoint 1 14)
        (exact_intersection (QPoint 0 0) (QPoint 1 11) (QPoint 0 15) (QPoint 1 15))
   \<and> \<bar>fst (exact_intersection (QPoint 0 0) (QPoint 1 11) (QPoint 0 15) (QPoint 1 15))\<bar>
        \<le> 2147483646
   \<and> \<bar>snd (exact_intersection (QPoint 0 0) (QPoint 1 11) (QPoint 0 15) (QPoint 1 15))\<bar>
        \<le> 2147483646"
  using line_intersection_within_one_of_exact_point
          [of "QPoint 0 0" "QPoint 1 11" "QPoint 0 15" "QPoint 1 15"]
        rounding_costs_a_unit
  by (simp add: valid_QPoint_def in_int32_def denominator_def)

subsection \<open>Reordering the layer stack\<close>

lemma move_layer_down_effect:
  assumes "layers ed = [a, b, c]" and "current_layer_idx ed = 1"
  shows "move_layer_down ed =
           ed\<lparr>layers := [b\<lparr>z_order := z_order b - 1\<rparr>, a\<lparr>z_order := z_order a + 1\<rparr>, c],
              current_layer_idx := 0\<rparr>"
  using assms by (simp add: move_layer_down_def Let_def)

text \<open>
  C6.  On a stack of three layers \<open>[a, b, c]\<close> with the bottom layer current,
  \<^verbatim>\<open>move_layer_up\<close> exchanges \<open>a\<close> and \<open>b\<close> in the list, raises the \<^verbatim>\<open>z_order\<close> of \<open>a\<close> by
  one and lowers that of \<open>b\<close> by one; \<^verbatim>\<open>move_layer_down\<close> on the layer at index 1 of a
  three-layer stack does the converse exchange; and \<^verbatim>\<open>move_layer_down\<close> after
  \<^verbatim>\<open>move_layer_up\<close> gives back the editor state it started from: the same list order, the
  same \<^verbatim>\<open>z_order\<close> of every layer and the same current index.
\<close>

theorem move_up_then_down_restores:
  assumes "layers ed = [a, b, c]" and "current_layer_idx ed = 0"
  shows "move_layer_up ed =
           ed\<lparr>layers := [b\<lparr>z_order := z_order b - 1\<rparr>, a\<lparr>z_order := z_order a + 1\<rparr>, c],
              current_layer_idx := 1\<rparr>
       \<and> move_layer_down (move_layer_up ed) = ed
       \<and> layers (move_layer_down (move_layer_up ed)) = [a, b, c]
       \<and> (layers ed2 = [a2, b2, c2] \<and> current_layer_idx ed2 = 1 \<longrightarrow>
            move_layer_down ed2 =
              ed2\<lparr>layers := [b2\<lparr>z_order := z_order b2 - 1\<rparr>, a2\<lparr>z_order := z_order a2 + 1\<rparr>, c2],
                  current_layer_idx := 0\<rparr>)"
proof -
  have up: "move_layer_up ed =
           ed\<lparr>layers := [b\<lparr>z_order := z_order b - 1\<rparr>, a\<lparr>z_order := z_order a + 1\<rparr>, c],
              current_layer_idx := 1\<rparr>"
    using assms by (simp add: move_layer_up_def Let_def)
  have restored: "move_layer_down (move_layer_up ed) = ed"
    using assms by (simp add: up move_layer_down_def Let_def)
  show ?thesis
    using up restored assms(1) move_layer_down_effect [of ed2 a2 b2 c2] by simp
qed

theorem move_up_then_down_restores_witness:
  "length (layers
      \<lparr>layers = [(new_layer ''bottom'')\<lparr>z_order := 0\<rparr>, (new_layer ''middle'')\<lparr>z_order := 1\<rparr>,
                 (new_layer ''top'')\<lparr>z_order := 2\<rparr>],
       current_layer_idx = 0, grid = \<lparr>enabled = True, primary_vp = []\<rparr>,
       control_point_mode = False\<rparr>) = 3
   \<and> move_layer_up
      \<lparr>layers = [(new_layer ''bottom'')\<lparr>z_order := 0\<rparr>, (new_layer ''middle'')\<lparr>z_order := 1\<rparr>,
                 (new_layer ''top'')\<lparr>z_order := 2\<rparr>],
       current_layer_idx = 0, grid = \<lparr>enabled = True, primary_vp = []\<rparr>,
       control_point_mode = False\<rparr>
     = \<lparr>layers = [(new_layer ''middle'')\<lparr>z_order := 0\<rparr>, (new_layer ''bottom'')\<lparr>z_order := 1\<rparr>,
                 (new_layer ''top'')\<lparr>z_order := 2\<rparr>],
       current_layer_idx = 1, grid = \<lparr>enabled = True, primary_vp = []\<rparr>,
       control_point_mode = False\<rparr>
   \<and> move_layer_down
      \<lparr>layers = [(new_layer ''middle'')\<lparr>z_order := 0\<rparr>, (new_layer ''bottom'')\<lparr>z_order := 1\<rparr>,
                 (new_layer ''top'')\<lparr>z_order := 2\<rparr>],
       current_layer_idx = 1, grid = \<lparr>enabled = True, primary_vp = []\<rparr>,
       control_point_mode = False\<rparr>
     = \<lparr>layers = [(new_layer ''bottom'')\<lparr>z_order := 0\<rparr>, (new_layer ''middle'')\<lparr>z_order := 1\<rparr>,
                 (new_layer ''top'')\<lparr>z_order := 2\<rparr>],
       current_layer_idx = 0, grid = \<lparr>enabled = True, primary_vp = []\<rparr>,
       control_point_mode = False\<rparr>
   \<and> move_layer_down (move_layer_up
      \<lparr>layers = [(new_layer ''bottom'')\<lparr>z_order := 0\<rparr>, (new_layer ''middle'')\<lparr>z_order := 1\<rparr>,
                 (new_layer ''top'')\<lparr>z_order := 2\<rparr>],
       current_layer_idx = 0, grid = \<lparr>enabled = True, primary_vp = []\<rparr>,
       control_point_mode = False\<rparr>)
     = \<lparr>layers = [(new_layer ''bottom'')\<lparr>z_order := 0\<rparr>, (new_layer ''middle'')\<lparr>z_order := 1\<rparr>,
                 (new_layer ''top'')\<lparr>z_order := 2\<rparr>],
       current_layer_idx = 0, grid = \<lparr>enabled = True, primary_vp = []\<rparr>,
       control_point_mode = False\<rparr>"
  using move_up_then_down_restores
          [of "\<lparr>layers = [(new_layer ''bottom'')\<lparr>z_order := 0\<rparr>, (new_layer ''middle'')\<lparr>z_order := 1\<rparr>,
                 (new_layer ''top'')\<lparr>z_order := 2\<rparr>],
       current_layer_idx = 0, grid = \<lparr>enabled = True, primary_vp = []\<rparr>,
       control_point_mode = False\<rparr>"
              "(new_layer ''bottom'')\<lparr>z_order := 0\<rparr>" "(new_layer ''middle'')\<lparr>z_order := 1\<rparr>"
              "(new_layer ''top'')\<lparr>z_order := 2\<rparr>"
              "\<lparr>layers = [(new_layer ''middle'')\<lparr>z_order := 0\<rparr>, (new_layer ''bottom'')\<lparr>z_order := 1\<rparr>,
                 (new_layer ''top'')\<lparr>z_order := 2\<rparr>],
       current_layer_idx = 1, grid = \<lparr>enabled = True, primary_vp = []\<rparr>,
       control_point_mode = False\<rparr>"
              "(new_layer ''middle'')\<lparr>z_order := 0\<rparr>" "(new_layer ''bottom'')\<lparr>z_order := 1\<rparr>"
              "(new_layer ''top'')\<lparr>z_order := 2\<rparr>"]
  by (simp add: new_layer_def)

subsection \<open>The order attribute follows the list order\<close>

lemma z_orders_match_nth:
  "z_orders_match ls \<longleftrightarrow> (\<forall>i < length ls. z_order (ls ! i) = int i)"
  unfolding z_orders_match_def
  by (subst list_eq_iff_nth_eq) simp

lemma z_orders_match_add_layer:
  "z_orders_match (layers ed) \<Longrightarrow> z_orders_match (layers (add_layer nm ed))"
  by (simp add: z_orders_match_def add_layer_def Let_def)

lemma z_orders_match_move_layer_up:
  "z_orders_match (layers ed) \<Longrightarrow> z_orders_match (layers (move_layer_up ed))"
  unfolding z_orders_match_nth by (auto simp: move_layer_up_def Let_def nth_list_update)

lemma z_orders_match_move_layer_down:
  "z_orders_match (layers ed) \<Longrightarrow> z_orders_match (layers (move_layer_down ed))"
  unfolding z_orders_match_nth by (auto simp: move_layer_down_def Let_def nth_list_update)

lemma z_orders_match_apply_stack_op:
  "z_orders_match (layers ed) \<Longrightarrow> z_orders_match (layers (apply_stack_op ed op))"
  by (cases op)
     (simp_all add: z_orders_match_add_layer z_orders_match_move_layer_up
        z_orders_match_move_layer_down)

lemma z_orders_match_foldl:
  "z_orders_match (layers ed) \<Longrightarrow> z_orders_match (layers (foldl apply_stack_op ed ops))"
  by (induction ops arbitrary: ed) (simp_all add: z_orders_match_apply_stack_op)

lemma z_orders_match_sort_key:
  assumes "z_orders_match ls"
  shows "sort_key z_order ls = ls"
proof -
  from assms have "map z_order ls = map int [0 ..< length ls]"
    by (simp add: z_orders_match_def)
  moreover have "sorted (map int [0 ..< length ls])"
    by (simp add: sorted_map strict_sorted_iff sorted_wrt_iff_nth_less)
  ultimately show ?thesis
    by (simp add: sort_key_id_if_sorted)
qed

lemma stack_operations_example:
  "map (\<lambda>l. (name l, z_order l))
     (layers (foldl apply_stack_op empty_editor
        [AddLayer ''a'', AddLayer ''b'', MoveDown, AddLayer ''c'', MoveDown, MoveUp]))
   = [(''b'', 0), (''a'', 1), (''c'', 2)]"
  by (simp add: empty_editor_def add_layer_def move_layer_up_def move_layer_down_def
        new_layer_def Let_def)

text \<open>
  C9.  After any sequence of \<^verbatim>\<open>add_layer\<close>, \<^verbatim>\<open>move_layer_up\<close> and \<^verbatim>\<open>move_layer_down\<close> from
  the empty stack, the list of \<^verbatim>\<open>z_order\<close> values is \<open>0, 1, \<dots>, n - 1\<close>: every layer's
  \<^verbatim>\<open>z_order\<close> is its index.  Sorting by \<^verbatim>\<open>z_order\<close> therefore leaves the list as it is, and
  \<^verbatim>\<open>draw_layers\<close> paints the visible layers in list order.
\<close>

theorem z_order_equals_index:
  "z_orders_match (layers (foldl apply_stack_op empty_editor ops))
   \<and> map z_order (layers (foldl apply_stack_op empty_editor ops))
       = map int [0 ..< length (layers (foldl apply_stack_op empty_editor ops))]
   \<and> sort_key z_order (layers (foldl apply_stack_op empty_editor ops))
       = layers (foldl apply_stack_op empty_editor ops)
   \<and> draw_layers (foldl apply_stack_op empty_editor ops)
       = filter visible (layers (foldl apply_stack_op empty_editor ops))"
proof -
  have "z_orders_match (layers empty_editor)"
    by (simp add: z_orders_match_def empty_editor_def)
  then have m: "z_orders_match (layers (foldl apply_stack_op empty_editor ops))"
    by (rule z_orders_match_foldl)
  from m have s: "sort_key z_order (layers (foldl apply_stack_op empty_editor ops))
       = layers (foldl apply_stack_op empty_editor ops)"
    by (rule z_orders_match_sort_key)
  from m s show ?thesis
    by (simp add: draw_layers_def z_orders_match_def)
qed

subsection \<open>Clearing the points of the current layer\<close>

lemma drag_layer_move_without_vp:
  "primary_vp g = [] \<Longrightarrow>
   \<exists>l'. drag_layer_move g pos l = Inr l' \<and> layer_scale l' = layer_scale l"
  by (simp add: drag_layer_move_def Let_def)

lemma draw_grid_without_vp: "primary_vp (grid ed) = [] \<Longrightarrow> draw_grid ed = []"
  by (simp add: draw_grid_def split: option.splits)

text \<open>
  C10.  With a current layer, \<^verbatim>\<open>clear_points\<close> empties that layer's two point lists
  (\<^verbatim>\<open>points\<close> and \<^verbatim>\<open>selection_points\<close>) and the grid's \<^verbatim>\<open>primary_vp\<close>, which is the one
  vanishing-point pair of the scene.  Nothing else changes: every other field of the layer,
  every other layer and every other field of the editor keep their values.  Afterwards
  \<^verbatim>\<open>draw_grid\<close> draws no line whichever layer is made current, and a free-drag move of any
  layer returns without an exception and leaves its \<^verbatim>\<open>layer_scale\<close> as it was.
\<close>

theorem clear_points_empties_shared_vp:
  assumes "get_current_layer ed = Some cur"
  shows "clear_points ed =
           ed\<lparr>layers := (layers ed)[nat (current_layer_idx ed) :=
                          cur\<lparr>points := [], selection_points := []\<rparr>],
              grid := (grid ed)\<lparr>primary_vp := []\<rparr>\<rparr>
       \<and> primary_vp (grid (clear_points ed)) = []
       \<and> (\<forall>i. draw_grid ((clear_points ed)\<lparr>current_layer_idx := i\<rparr>) = [])
       \<and> (\<forall>pos l. \<exists>l'. drag_layer_move (grid (clear_points ed)) pos l = Inr l'
                          \<and> layer_scale l' = layer_scale l)"
proof -
  have eq: "clear_points ed =
           ed\<lparr>layers := (layers ed)[nat (current_layer_idx ed) :=
                          cur\<lparr>points := [], selection_points := []\<rparr>],
              grid := (grid ed)\<lparr>primary_vp := []\<rparr>\<rparr>"
    using assms by (simp add: clear_points_def)
  have vp: "primary_vp (grid (clear_points ed)) = []"
    by (simp add: eq)
  have dg: "draw_grid ((clear_points ed)\<lparr>current_layer_idx := i\<rparr>) = []" for i
    by (rule draw_grid_without_vp) (simp add: vp)
  show ?thesis
    using eq vp dg drag_layer_move_without_vp [OF vp] by blast
qed

theorem clear_points_empties_shared_vp_witness:
  "get_current_layer
     \<lparr>layers = [(new_layer ''a'')\<lparr>points := [QPoint 1 2], selection_points := [QPoint 1 2]\<rparr>,
                (new_layer ''b'')\<lparr>points := [QPoint 3 4]\<rparr>],
      current_layer_idx = 0,
      grid = \<lparr>enabled = True, primary_vp = [QPoint 10000 10000, QPoint 200 (- 650)]\<rparr>,
      control_point_mode = False\<rparr>
     = Some ((new_layer ''a'')\<lparr>points := [QPoint 1 2], selection_points := [QPoint 1 2]\<rparr>)
   \<and> clear_points
     \<lparr>layers = [(new_layer ''a'')\<lparr>points := [QPoint 1 2], selection_points := [QPoint 1 2]\<rparr>,
                (new_layer ''b'')\<lparr>points := [QPoint 3 4]\<rparr>],
      current_layer_idx = 0,
      grid = \<lparr>enabled = True, primary_vp = [QPoint 10000 10000, QPoint 200 (- 650)]\<rparr>,
      control_point_mode = False\<rparr>
     = \<lparr>layers = [new_layer ''a'', (new_layer ''b'')\<lparr>points := [QPoint 3 4]\<rparr>],
        current_layer_idx = 0,
        grid = \<lparr>enabled = True, primary_vp = []\<rparr>,
        control_point_mode = False\<rparr>"
  using clear_points_empties_shared_vp
          [of "\<lparr>layers = [(new_layer ''a'')\<lparr>points := [QPoint 1 2], selection_points := [QPoint 1 2]\<rparr>,
                           (new_layer ''b'')\<lparr>points := [QPoint 3 4]\<rparr>],
                 current_layer_idx = 0,
                 grid = \<lparr>enabled = True, primary_vp = [QPoint 10000 10000, QPoint 200 (- 650)]\<rparr>,
                 control_point_mode = False\<rparr>"
              "(new_layer ''a'')\<lparr>points := [QPoint 1 2], selection_points := [QPoint 1 2]\<rparr>"]
  by (simp add: get_current_layer_def new_layer_def)

subsection \<open>Scale of a dragged layer\<close>

lemma max_min_bounds: "(lo::real) \<le> hi \<Longrightarrow> lo \<le> max lo (min v hi) \<and> max lo (min v hi) \<le> hi"
  by auto

lemma clamp_max_min: "(lo::real) \<le> hi \<Longrightarrow> max lo (min v hi) = clamp lo hi v"
  by (auto simp: clamp_def)

lemma clamp_bounds: "(lo::real) \<le> hi \<Longrightarrow> lo \<le> clamp lo hi v \<and> clamp lo hi v \<le> hi"
  by (auto simp: clamp_def)

lemma wheel_range: "1 / 10 \<le> layer_scale (wheel_zoom_layer d l) \<and> layer_scale (wheel_zoom_layer d l) \<le> 5"
proof -
  have "layer_scale (wheel_zoom_layer d l) = max (1 / 10) (min (layer_scale l * (if 0 < d then 11 / 10 else 9 / 10)) 5)"
    by (simp add: wheel_zoom_layer_def Let_def)
  moreover have "(1 / 10 :: real) \<le> 5" by simp
  ultimately show ?thesis using max_min_bounds by metis
qed

lemma wheel_fold_range:
  "1 / 10 \<le> layer_scale l \<and> layer_scale l \<le> 5 \<Longrightarrow>
   1 / 10 \<le> layer_scale (foldl (\<lambda>l d. wheel_zoom_layer d l) l ds)
   \<and> layer_scale (foldl (\<lambda>l d. wheel_zoom_layer d l) l ds) \<le> 5"
proof (induction ds arbitrary: l)
  case Nil
  then show ?case by (simp only: foldl.simps)
next
  case (Cons d ds)
  have "foldl (\<lambda>l d. wheel_zoom_layer d l) l (d # ds) = foldl (\<lambda>l d. wheel_zoom_layer d l) (wheel_zoom_layer d l) ds"
    by (simp only: foldl.simps)
  with Cons.IH[OF wheel_range] show ?case by (simp only:)
qed

lemma drag_layer_move_spec:
  assumes "layer_drag_mode l" "drag_layer_image l \<noteq> None" "initial_vp1_distance l = Some d1"
      "primary_vp g = vp1 # vp2 # rest"
  shows "drag_layer_move g pos l =
      Inr (l\<lparr>layer_position := QPoint (qx pos - qx (drag_offset l)) (qy pos - qy (drag_offset l)),
            layer_scale := spec_free_drag_scale (initial_center l)
               (QPoint (qx pos - qx (drag_offset l)) (qy pos - qy (drag_offset l))) vp1 vp2 d1 (initial_vp2_distance l)\<rparr>)"
proof -
  have c: "max (1 / 10) (min v 2) = clamp (1 / 10) 2 v" for v :: real
    by (rule clamp_max_min) simp
  show ?thesis
    using assms
    by (simp add: drag_layer_move_def Let_def spec_free_drag_scale_def vector_from_def signed_angle_def
        euclidean_distance_def power2_eq_square c del: max_less_iff_conj min_less_iff_conj)
qed



text \<open>
  Drag mode is entered only through \<^verbatim>\<open>toggle_layer_drag_mode\<close>, which then has stored a
  drag image and both initial distances and has reset the scale to 1.  With two vanishing
  points in the grid the stored distances are the Euclidean distances from the initial
  centre to them.
\<close>

lemma toggle_layer_drag_mode_enters:
  assumes "\<not> layer_drag_mode layer"
    and "layer_drag_mode (toggle_layer_drag_mode pixmap_ok warp g layer)"
  shows "drag_layer_image (toggle_layer_drag_mode pixmap_ok warp g layer) \<noteq> None
     \<and> initial_vp1_distance (toggle_layer_drag_mode pixmap_ok warp g layer) \<noteq> None
     \<and> layer_scale (toggle_layer_drag_mode pixmap_ok warp g layer) = 1"
proof -
  define l2 where "l2 = copy_selection_to_drag_layer pixmap_ok warp (layer\<lparr>layer_drag_mode := True\<rparr>)"
  have s2: "selection_points l2 = selection_points layer"
    and m2: "layer_drag_mode l2"
    by (simp_all add: l2_def copy_selection_to_drag_layer_def Let_def)
  from assms have len: "length (selection_points layer) = 4"
    by (auto simp: toggle_layer_drag_mode_def split: if_splits)
  show ?thesis
  proof (cases "drag_layer_image l2 = None")
    case True
    with assms len have False
      by (simp add: toggle_layer_drag_mode_def Let_def l2_def [symmetric])
    then show ?thesis ..
  next
    case False
    then show ?thesis using assms(1) len s2
      by (simp add: toggle_layer_drag_mode_def Let_def l2_def [symmetric])
  qed
qed

lemma toggle_layer_drag_mode_captures_distances:
  assumes off: "\<not> layer_drag_mode layer"
    and on: "layer_drag_mode (toggle_layer_drag_mode pixmap_ok warp g layer)"
    and vps: "primary_vp g = vp1 # vp2 # rest"
  shows "initial_vp1_distance (toggle_layer_drag_mode pixmap_ok warp g layer)
           = Some (euclidean_distance
                     (initial_center (toggle_layer_drag_mode pixmap_ok warp g layer)) vp1)
       \<and> initial_vp2_distance (toggle_layer_drag_mode pixmap_ok warp g layer)
           = euclidean_distance
               (initial_center (toggle_layer_drag_mode pixmap_ok warp g layer)) vp2
       \<and> layer_position (toggle_layer_drag_mode pixmap_ok warp g layer)
           = initial_center (toggle_layer_drag_mode pixmap_ok warp g layer)"
proof -
  define l2 where "l2 = copy_selection_to_drag_layer pixmap_ok warp (layer\<lparr>layer_drag_mode := True\<rparr>)"
  have s2: "selection_points l2 = selection_points layer"
    by (simp add: l2_def copy_selection_to_drag_layer_def Let_def)
  from off on have len: "length (selection_points layer) = 4"
    by (auto simp: toggle_layer_drag_mode_def split: if_splits)
  show ?thesis
  proof (cases "drag_layer_image l2 = None")
    case True
    with off on len have False
      by (simp add: toggle_layer_drag_mode_def Let_def l2_def [symmetric])
    then show ?thesis ..
  next
    case False
    then show ?thesis using off len s2 vps
      by (simp add: toggle_layer_drag_mode_def Let_def l2_def [symmetric] euclidean_distance_def
            power2_eq_square)
  qed
qed



lemma drag_layer_moves_range:
  assumes "layer_drag_mode l" "drag_layer_image l \<noteq> None" "initial_vp1_distance l = Some d1"
      "primary_vp g = vp1 # vp2 # rest"
  shows "\<exists>l'. drag_layer_moves g ps l = Inr l'
     \<and> (ps \<noteq> [] \<or> (1 / 10 \<le> layer_scale l \<and> layer_scale l \<le> 2)
          \<longrightarrow> 1 / 10 \<le> layer_scale l' \<and> layer_scale l' \<le> 2)"
  using assms(1-3)
proof (induction ps arbitrary: l)
  case Nil
  then show ?case by simp
next
  case (Cons p ps)
  define l1 where "l1 = l\<lparr>layer_position := QPoint (qx p - qx (drag_offset l)) (qy p - qy (drag_offset l)),
            layer_scale := spec_free_drag_scale (initial_center l)
               (QPoint (qx p - qx (drag_offset l)) (qy p - qy (drag_offset l))) vp1 vp2 d1 (initial_vp2_distance l)\<rparr>"
  have step: "drag_layer_move g p l = Inr l1"
    unfolding l1_def by (rule drag_layer_move_spec [OF Cons.prems assms(4)])
  have r1: "1 / 10 \<le> layer_scale l1 \<and> layer_scale l1 \<le> 2"
  proof -
    obtain v where "layer_scale l1 = clamp (1 / 10) 2 v"
      by (simp add: l1_def spec_free_drag_scale_def Let_def)
    moreover have "(1 / 10 :: real) \<le> 2" by simp
    ultimately show ?thesis using clamp_bounds by metis
  qed
  have p1: "layer_drag_mode l1" "drag_layer_image l1 \<noteq> None" "initial_vp1_distance l1 = Some d1"
    using Cons.prems by (simp_all add: l1_def)
  from Cons.IH [OF p1] obtain l' where
    l': "drag_layer_moves g ps l1 = Inr l'"
        "ps \<noteq> [] \<or> (1 / 10 \<le> layer_scale l1 \<and> layer_scale l1 \<le> 2)
          \<longrightarrow> 1 / 10 \<le> layer_scale l' \<and> layer_scale l' \<le> 2"
    by blast
  have "drag_layer_moves g (p # ps) l = Inr l'"
    by (simp add: step l'(1))
  moreover have "1 / 10 \<le> layer_scale l' \<and> layer_scale l' \<le> 2"
    using l'(2) r1 by blast
  ultimately show ?case by blast
qed

text \<open>
  C4.  From a scale in [0.1, 5.0], any sequence of wheel steps on a layer leaves the scale in
  [0.1, 5.0].  For a layer in drag mode with a drag image and two vanishing points in the
  grid, any sequence of move events runs without an exception, and the scale afterwards is in
  [0.1, 2.0] as soon as one move has been made (whatever the scale was before) or the scale
  was in [0.1, 2.0] to begin with.
\<close>

theorem scale_stays_clamped:
  "(1 / 10 \<le> layer_scale l \<and> layer_scale l \<le> 5 \<longrightarrow>
      1 / 10 \<le> layer_scale (foldl (\<lambda>l d. wheel_zoom_layer d l) l ds)
      \<and> layer_scale (foldl (\<lambda>l d. wheel_zoom_layer d l) l ds) \<le> 5)
   \<and> (layer_drag_mode k \<and> drag_layer_image k \<noteq> None \<and> initial_vp1_distance k = Some d1
        \<and> primary_vp g = vp1 # vp2 # rest \<longrightarrow>
        (\<exists>k'. drag_layer_moves g ps k = Inr k'
           \<and> (ps \<noteq> [] \<or> (1 / 10 \<le> layer_scale k \<and> layer_scale k \<le> 2)
                \<longrightarrow> 1 / 10 \<le> layer_scale k' \<and> layer_scale k' \<le> 2)))"
  using wheel_fold_range [of l ds] drag_layer_moves_range [of k d1 g vp1 vp2 rest ps]
  by blast

theorem scale_stays_clamped_witness:
  "(1 / 10 \<le> layer_scale ((new_layer ''a'')\<lparr>layer_scale := 5\<rparr>)
      \<and> layer_scale ((new_layer ''a'')\<lparr>layer_scale := 5\<rparr>) \<le> 5)
   \<and> 1 / 10 \<le> layer_scale (foldl (\<lambda>l d. wheel_zoom_layer d l)
                    ((new_layer ''a'')\<lparr>layer_scale := 5\<rparr>) [120, - 120, 120])
   \<and> layer_scale (foldl (\<lambda>l d. wheel_zoom_layer d l)
                    ((new_layer ''a'')\<lparr>layer_scale := 5\<rparr>) [120, - 120, 120]) \<le> 5
   \<and> layer_drag_mode ((new_layer ''a'')\<lparr>layer_drag_mode := True,
          drag_layer_image := Some \<lparr>img_width = 10, img_height = 10\<rparr>,
          initial_vp1_distance := Some 100, initial_vp2_distance := 100, layer_scale := 5\<rparr>)
   \<and> (\<exists>k'. drag_layer_moves \<lparr>enabled = True, primary_vp = [QPoint 100 0, QPoint 0 100]\<rparr>
              [QPoint 50 0, QPoint 60 10]
              ((new_layer ''a'')\<lparr>layer_drag_mode := True,
                 drag_layer_image := Some \<lparr>img_width = 10, img_height = 10\<rparr>,
                 initial_vp1_distance := Some 100, initial_vp2_distance := 100,
                 layer_scale := 5\<rparr>) = Inr k'
          \<and> 1 / 10 \<le> layer_scale k' \<and> layer_scale k' \<le> 2)"
  using scale_stays_clamped
          [of "(new_layer ''a'')\<lparr>layer_scale := 5\<rparr>" "[120, - 120, 120]"
              "(new_layer ''a'')\<lparr>layer_drag_mode := True,
                 drag_layer_image := Some \<lparr>img_width = 10, img_height = 10\<rparr>,
                 initial_vp1_distance := Some 100, initial_vp2_distance := 100,
                 layer_scale := 5\<rparr>"
              100 "\<lparr>enabled = True, primary_vp = [QPoint 100 0, QPoint 0 100]\<rparr>"
              "QPoint 100 0" "QPoint 0 100" "[]" "[QPoint 50 0, QPoint 60 10]"]
  by (simp add: new_layer_def)

subsection \<open>A selection with a collapsed bounding box\<close>

lemma set_sort_points: "set (sort_points pts) = set pts"
proof -
  have "set (sort_points pts) = (\<lambda>i. pts ! i) ` set [0 ..< length pts]"
    by (simp add: sort_points_def Let_def)
  also have "\<dots> = set pts"
    by (metis map_nth set_map)
  finally show ?thesis .
qed

lemma length_sort_points: "length (sort_points pts) = length pts"
  by (simp add: sort_points_def Let_def)

lemma copy_selection_collapsed:
  assumes "length (selection_points layer) = 4"
    and "bounding_box_width (selection_points layer) \<le> 0
         \<or> bounding_box_height (selection_points layer) \<le> 0"
  shows "copy_selection_to_drag_layer pixmap_ok warp layer = layer\<lparr>drag_layer_image := None\<rparr>"
  using assms
  by (auto simp: copy_selection_to_drag_layer_def Let_def set_sort_points
        bounding_box_width_def bounding_box_height_def)

text \<open>
  C7.  For a selection of four points whose bounding box has width or height at most zero,
  \<^verbatim>\<open>copy_selection_to_drag_layer\<close> changes nothing but \<^verbatim>\<open>drag_layer_image\<close>, which it sets to
  \<open>None\<close>, whatever the pixmap and whatever the warp would have produced; no exception
  leaves the function.  \<^verbatim>\<open>toggle_layer_drag_mode\<close> on such a layer that is not in drag mode
  then resets the mode: the layer stays out of drag mode without a drag image.
\<close>

theorem collapsed_selection_yields_no_drag_image:
  assumes "length (selection_points layer) = 4"
    and "bounding_box_width (selection_points layer) \<le> 0
         \<or> bounding_box_height (selection_points layer) \<le> 0"
  shows "copy_selection_to_drag_layer pixmap_ok warp layer = layer\<lparr>drag_layer_image := None\<rparr>
       \<and> drag_layer_image (copy_selection_to_drag_layer pixmap_ok warp layer) = None
       \<and> (\<not> layer_drag_mode layer \<longrightarrow>
            toggle_layer_drag_mode pixmap_ok warp g layer = layer\<lparr>drag_layer_image := None\<rparr>)"
proof -
  have c: "copy_selection_to_drag_layer pixmap_ok warp layer = layer\<lparr>drag_layer_image := None\<rparr>"
    using assms by (rule copy_selection_collapsed)
  have "toggle_layer_drag_mode pixmap_ok warp g layer = layer\<lparr>drag_layer_image := None\<rparr>"
    if off: "\<not> layer_drag_mode layer"
  proof -
    have "copy_selection_to_drag_layer pixmap_ok warp (layer\<lparr>layer_drag_mode := True\<rparr>)
            = layer\<lparr>layer_drag_mode := True, drag_layer_image := None\<rparr>"
      using copy_selection_collapsed [of "layer\<lparr>layer_drag_mode := True\<rparr>" pixmap_ok warp] assms
      by simp
    then show ?thesis
      using assms(1) off by (simp add: toggle_layer_drag_mode_def Let_def)
  qed
  with c show ?thesis by simp
qed

theorem collapsed_selection_yields_no_drag_image_witness:
  "length (selection_points ((new_layer ''a'')\<lparr>selection_points :=
           [QPoint 5 0, QPoint 5 10, QPoint 5 20, QPoint 5 30],
           drag_layer_image := Some \<lparr>img_width = 3, img_height = 3\<rparr>\<rparr>)) = 4
   \<and> bounding_box_width [QPoint 5 0, QPoint 5 10, QPoint 5 20, QPoint 5 30] = 0
   \<and> bounding_box_height [QPoint 5 0, QPoint 5 10, QPoint 5 20, QPoint 5 30] = 30
   \<and> \<not> layer_drag_mode ((new_layer ''a'')\<lparr>selection_points :=
           [QPoint 5 0, QPoint 5 10, QPoint 5 20, QPoint 5 30],
           drag_layer_image := Some \<lparr>img_width = 3, img_height = 3\<rparr>\<rparr>)
   \<and> copy_selection_to_drag_layer True (\<lambda>pts w h. Some \<lparr>img_width = w, img_height = h\<rparr>)
        ((new_layer ''a'')\<lparr>selection_points :=
           [QPoint 5 0, QPoint 5 10, QPoint 5 20, QPoint 5 30],
           drag_layer_image := Some \<lparr>img_width = 3, img_height = 3\<rparr>\<rparr>)
      = (new_layer ''a'')\<lparr>selection_points :=
           [QPoint 5 0, QPoint 5 10, QPoint 5 20, QPoint 5 30]\<rparr>
   \<and> toggle_layer_drag_mode True (\<lambda>pts w h. Some \<lparr>img_width = w, img_height = h\<rparr>)
        \<lparr>enabled = True, primary_vp = []\<rparr>
        ((new_layer ''a'')\<lparr>selection_points :=
           [QPoint 5 0, QPoint 5 10, QPoint 5 20, QPoint 5 30],
           drag_layer_image := Some \<lparr>img_width = 3, img_height = 3\<rparr>\<rparr>)
      = (new_layer ''a'')\<lparr>selection_points :=
           [QPoint 5 0, QPoint 5 10, QPoint 5 20, QPoint 5 30]\<rparr>"
  using collapsed_selection_yields_no_drag_image
          [of "((new_layer ''a'')\<lparr>selection_points :=
           [QPoint 5 0, QPoint 5 10, QPoint 5 20, QPoint 5 30],
           drag_layer_image := Some \<lparr>img_width = 3, img_height = 3\<rparr>\<rparr>)"
              True "\<lambda>pts w h. Some \<lparr>img_width = w, img_height = h\<rparr>"
              "\<lparr>enabled = True, primary_vp = []\<rparr>"]
  by (simp add: new_layer_def bounding_box_width_def bounding_box_height_def)

subsection \<open>Constrained corner drag\<close>

lemma four_elements: "length xs = 4 \<Longrightarrow> \<exists>a b c d. xs = [a, b, c, d]"
  by (simp add: numeral_eq_Suc length_Suc_conv) blast

text \<open>
  The exact point of a walk lies on the line through the two points, at the distance
  \<open>\<bar>len\<bar>\<close> from the second.
\<close>

lemma exact_point_on_line:
  "line_residual start endp (fst (exact_point_along_line start endp len))
     (snd (exact_point_along_line start endp len)) = 0"
proof -
  define dx where "dx = real_of_int (qx endp - qx start)"
  define dy where "dy = real_of_int (qy endp - qy start)"
  define c where "c = (if dx = 0 \<and> dy = 0 then 0 else real_of_int len / sqrt (dx\<^sup>2 + dy\<^sup>2))"
  have e: "exact_point_along_line start endp len =
      (real_of_int (qx endp) + dx * c, real_of_int (qy endp) + dy * c)"
    unfolding exact_point_along_line_def Let_def dx_def dy_def c_def by auto
  show ?thesis
    unfolding e line_residual_def by (simp add: dx_def dy_def algebra_simps)
qed

lemma exact_point_distance:
  assumes "start \<noteq> endp"
  shows "(fst (exact_point_along_line start endp len) - real_of_int (qx endp))\<^sup>2
       + (snd (exact_point_along_line start endp len) - real_of_int (qy endp))\<^sup>2
       = (real_of_int len)\<^sup>2"
proof -
  define dx where "dx = real_of_int (qx endp - qx start)"
  define dy where "dy = real_of_int (qy endp - qy start)"
  define R where "R = sqrt (dx\<^sup>2 + dy\<^sup>2)"
  from assms have nz: "\<not> (dx = 0 \<and> dy = 0)"
    by (cases start; cases endp) (auto simp: dx_def dy_def)
  then have "0 < dx\<^sup>2 + dy\<^sup>2"
    by (metis not_sum_power2_lt_zero sum_power2_eq_zero_iff linorder_neqE_linordered_idom)
  then have Rpos: "0 < R" and RR: "R\<^sup>2 = dx\<^sup>2 + dy\<^sup>2"
    by (simp_all add: R_def)
  have e: "exact_point_along_line start endp len =
      (real_of_int (qx endp) + dx * real_of_int len / R,
       real_of_int (qy endp) + dy * real_of_int len / R)"
    using nz unfolding exact_point_along_line_def Let_def dx_def dy_def R_def by auto
  have "(dx * real_of_int len / R)\<^sup>2 + (dy * real_of_int len / R)\<^sup>2
      = (dx\<^sup>2 + dy\<^sup>2) * (real_of_int len)\<^sup>2 / R\<^sup>2"
    by (simp add: power_divide power_mult_distrib algebra_simps add_divide_distrib)
  also have "\<dots> = (real_of_int len)\<^sup>2"
    using Rpos by (simp add: RR [symmetric])
  finally show ?thesis by (simp add: e)
qed

text \<open>
  On distinct points whose squared distance fits 64 bits, the source builds the point from
  two rounded coordinates, each within \<open>13 * 2\<^sup>3\<^sup>1 / 2\<^sup>5\<^sup>3\<close> of the exact one.
\<close>

lemma get_point_along_line_rounded:
  assumes vs: "valid_QPoint start" and ve: "valid_QPoint endp"
    and lb: "\<bar>len\<bar> \<le> 2147483648"
    and nz: "\<not> (qx endp - qx start = 0 \<and> qy endp - qy start = 0)"
    and fits: "(qx endp - qx start)\<^sup>2 + (qy endp - qy start)\<^sup>2 < 2 ^ 64"
  shows "\<exists>x y. get_point_along_line start endp len = make_QPoint (py_int x) (py_int y)
           \<and> \<bar>x - fst (exact_point_along_line start endp len)\<bar> \<le> 13 * 2147483648 / 2 ^ 53
           \<and> \<bar>y - snd (exact_point_along_line start endp len)\<bar> \<le> 13 * 2147483648 / 2 ^ 53"
proof -
  define dxi where "dxi = qx endp - qx start"
  define dyi where "dyi = qy endp - qy start"
  define S where "S = dxi\<^sup>2 + dyi\<^sup>2"
  define R where "R = sqrt (real_of_int S)"
  define Sf where "Sf = float_of_int S"
  define d where "d = double_round (sqrt Sf)"
  define ratio where "ratio = double_round (real_of_int len / d)"
  define px where "px = double_round (real_of_int dxi * ratio)"
  define x where "x = double_round (real_of_int (qx endp) + px)"
  define py where "py = double_round (real_of_int dyi * ratio)"
  define y where "y = double_round (real_of_int (qy endp) + py)"
  from vs ve have i: "in_int32 (qx start)" "in_int32 (qy start)" "in_int32 (qx endp)"
      "in_int32 (qy endp)"
    by (simp_all add: valid_QPoint_def)
  from nz have nz': "\<not> (dxi = 0 \<and> dyi = 0)"
    by (simp add: dxi_def dyi_def)
  then have Spos: "0 < S"
    unfolding S_def
    by (metis not_sum_power2_lt_zero sum_power2_eq_zero_iff linorder_neqE_linordered_idom)
  from fits have fits': "S < 2 ^ 64"
    by (simp add: S_def dxi_def dyi_def)
  have Rpos: "0 < R" using Spos by (simp add: R_def)
  have RR: "R * R = real_of_int S" using Spos by (simp add: R_def)
  have "\<bar>Sf - real_of_int S\<bar> \<le> (1 / 2 ^ 53) * \<bar>real_of_int S\<bar>"
    unfolding Sf_def float_of_int_def by (rule double_round_rel)
  then have Sferr: "\<bar>Sf - R * R\<bar> \<le> (1 / 2 ^ 53) * (R * R)"
    using Spos by (simp add: RR)
  have sq: "R = sqrt ((real_of_int dxi)\<^sup>2 + (real_of_int dyi)\<^sup>2)"
    by (simp add: R_def S_def)
  have "sqrt ((real_of_int dxi)\<^sup>2) \<le> sqrt ((real_of_int dxi)\<^sup>2 + (real_of_int dyi)\<^sup>2)"
    by (rule real_sqrt_le_mono) simp
  then have dxb: "\<bar>real_of_int dxi\<bar> \<le> R"
    unfolding sq by simp
  have "sqrt ((real_of_int dyi)\<^sup>2) \<le> sqrt ((real_of_int dxi)\<^sup>2 + (real_of_int dyi)\<^sup>2)"
    by (rule real_sqrt_le_mono) simp
  then have dyb: "\<bar>real_of_int dyi\<bar> \<le> R"
    unfolding sq by simp
  have Lb: "\<bar>real_of_int len\<bar> \<le> 2147483648"
    using lb by linarith
  have exb: "\<bar>real_of_int (qx endp)\<bar> \<le> 2147483648" and eyb: "\<bar>real_of_int (qy endp)\<bar> \<le> 2147483648"
    using i by (simp_all add: in_int32_abs)
  have wx: "0 < d \<and> \<bar>x - (real_of_int (qx endp) + real_of_int dxi * real_of_int len / R)\<bar>
      \<le> 13 * 2147483648 / 2 ^ 53"
    by (rule walk_coordinate_error [OF Rpos Sferr d_def ratio_def px_def x_def dxb Lb exb])
  have wy: "0 < d \<and> \<bar>y - (real_of_int (qy endp) + real_of_int dyi * real_of_int len / R)\<bar>
      \<le> 13 * 2147483648 / 2 ^ 53"
    by (rule walk_coordinate_error [OF Rpos Sferr d_def ratio_def py_def y_def dyb Lb eyb])
  have dnz: "d \<noteq> 0" using wx by simp
  have lenf: "float_of_int len = real_of_int len"
    by (rule float_of_int_exact) (use lb in simp)
  have g: "get_point_along_line start endp len = make_QPoint (py_int x) (py_int y)"
    by (rule get_point_along_line_eval [OF dxi_def [symmetric] dyi_def [symmetric] nz'
          S_def [symmetric] fits' Sf_def [symmetric] refl d_def [symmetric] dnz lenf refl
          ratio_def [symmetric] float_of_int32 [OF i(3)]
          float_of_int32_diff [OF i(3) i(1), folded dxi_def] px_def [symmetric] x_def [symmetric]
          float_of_int32 [OF i(4)]
          float_of_int32_diff [OF i(4) i(2), folded dyi_def] py_def [symmetric] y_def [symmetric]])
  have e: "exact_point_along_line start endp len =
      (real_of_int (qx endp) + real_of_int dxi * real_of_int len / R,
       real_of_int (qy endp) + real_of_int dyi * real_of_int len / R)"
    using nz' unfolding exact_point_along_line_def Let_def sq dxi_def dyi_def by auto
  from g wx wy show ?thesis
    unfolding e by auto
qed

text \<open>
  The stored point of a walk is near the exact one, and it is a point that a \<^verbatim>\<open>QPoint\<close>
  can hold.
\<close>

lemma get_point_along_line_near:
  assumes vs: "valid_QPoint start" and ve: "valid_QPoint endp"
    and lb: "\<bar>len\<bar> \<le> 2147483648"
    and r: "get_point_along_line start endp len = Inr p"
  shows "near_point p (exact_point_along_line start endp len) \<and> valid_QPoint p"
proof (cases "qx endp - qx start = 0 \<and> qy endp - qy start = 0")
  case True
  then have "p = endp"
    using r by (simp add: get_point_along_line_def)
  moreover have "exact_point_along_line start endp len
      = (real_of_int (qx endp), real_of_int (qy endp))"
    using True by (simp add: exact_point_along_line_def)
  ultimately show ?thesis
    using ve by (simp add: near_point_def)
next
  case False
  have fits: "(qx endp - qx start)\<^sup>2 + (qy endp - qy start)\<^sup>2 < 2 ^ 64"
  proof (rule ccontr)
    assume "\<not> (qx endp - qx start)\<^sup>2 + (qy endp - qy start)\<^sup>2 < 2 ^ 64"
    then have "get_point_along_line start endp len = Inl TypeError"
      using False by (simp add: get_point_along_line_def Let_def)
    with r show False by simp
  qed
  from get_point_along_line_rounded [OF vs ve lb False fits] obtain x y where
    g: "get_point_along_line start endp len = make_QPoint (py_int x) (py_int y)"
    and wx: "\<bar>x - fst (exact_point_along_line start endp len)\<bar> \<le> 13 * 2147483648 / 2 ^ 53"
    and wy: "\<bar>y - snd (exact_point_along_line start endp len)\<bar> \<le> 13 * 2147483648 / 2 ^ 53"
    by blast
  from r g have "make_QPoint (py_int x) (py_int y) = Inr p" by simp
  then have p: "p = QPoint (py_int x) (py_int y)" and sx: "in_int32 (py_int x)"
    and sy: "in_int32 (py_int y)"
    using make_QPoint_Inr by blast+
  have small: "(13 * 2147483648 / 2 ^ 53 :: real) < 1 / 100000" by simp
  have "\<bar>real_of_int (py_int x) - fst (exact_point_along_line start endp len)\<bar> < 1 + 1 / 100000"
    using py_int_close [of x] wx small by linarith
  moreover have "\<bar>real_of_int (py_int y) - snd (exact_point_along_line start endp len)\<bar> < 1 + 1 / 100000"
    using py_int_close [of y] wy small by linarith
  ultimately show ?thesis
    unfolding near_point_def p valid_QPoint_def using sx sy by simp
qed

text \<open>
  A walk returns when the squared distance of the two points fits 64 bits and the exact
  point has coordinates of at most 2147483646 in absolute value.
\<close>

lemma get_point_along_line_returns:
  assumes vs: "valid_QPoint start" and ve: "valid_QPoint endp"
    and lb: "\<bar>len\<bar> \<le> 2147483648"
    and fits: "(qx endp - qx start)\<^sup>2 + (qy endp - qy start)\<^sup>2 < 2 ^ 64"
    and ex: "\<bar>fst (exact_point_along_line start endp len)\<bar> \<le> 2147483646"
    and ey: "\<bar>snd (exact_point_along_line start endp len)\<bar> \<le> 2147483646"
  shows "\<exists>p. get_point_along_line start endp len = Inr p"
proof (cases "qx endp - qx start = 0 \<and> qy endp - qy start = 0")
  case True
  then show ?thesis by (simp add: get_point_along_line_def)
next
  case False
  from get_point_along_line_rounded [OF vs ve lb False fits] obtain x y where
    g: "get_point_along_line start endp len = make_QPoint (py_int x) (py_int y)"
    and wx: "\<bar>x - fst (exact_point_along_line start endp len)\<bar> \<le> 13 * 2147483648 / 2 ^ 53"
    and wy: "\<bar>y - snd (exact_point_along_line start endp len)\<bar> \<le> 13 * 2147483648 / 2 ^ 53"
    by blast
  have small: "(13 * 2147483648 / 2 ^ 53 :: real) < 1 / 2" by simp
  from wx small ex have "\<bar>x\<bar> < 2147483647" by linarith
  then have sx: "in_int32 (py_int x)" by (rule py_int_in_int32)
  from wy small ey have "\<bar>y\<bar> < 2147483647" by linarith
  then have sy: "in_int32 (py_int y)" by (rule py_int_in_int32)
  show ?thesis
    unfolding g using sx sy by (simp add: make_QPoint_def)
qed

text \<open>The diagonal corner, when the call returns.\<close>

lemma canvas_line_intersection_placed:
  assumes v1: "valid_QPoint a1" and v2: "valid_QPoint a2"
    and r: "canvas_line_intersection a1 a2 b1 b2 = Inr d"
  shows "diagonal_placed a1 a2 b1 b2 d"
proof (cases "denominator a1 a2 b1 b2 = 0")
  case True
  then have "canvas_line_intersection a1 a2 b1 b2 = Inr (QPoint (qx a2) (qy a2))"
    by (simp add: denominator_def canvas_line_intersection_def Let_def)
  with r True show ?thesis by (auto simp: diagonal_placed_def)
next
  case False
  with canvas_line_intersection_near [OF v1 v2 False r] show ?thesis
    by (simp add: diagonal_placed_def)
qed

text \<open>The four update rules, when no call raises.\<close>

lemma rederive_corners_result:
  assumes len: "length wp = 4" and i: "i < 4"
    and r: "rederive_corners vp1 vp2 w h i wp = Inr wp'"
  shows "\<exists>n1 n2 c.
           get_point_along_line vp1 (wp ! i) (width_walk i w) = Inr n1
         \<and> get_point_along_line vp2 (wp ! i) (height_walk i h) = Inr n2
         \<and> (if i < 2 then canvas_line_intersection n1 vp2 n2 vp1
            else canvas_line_intersection n2 vp1 n1 vp2) = Inr c
         \<and> length wp' = 4 \<and> wp' ! i = wp ! i
         \<and> wp' ! vp1_neighbour i = n1 \<and> wp' ! vp2_neighbour i = n2
         \<and> wp' ! diagonal_corner i = c"
proof -
  from four_elements [OF len] obtain a b c d where wp: "wp = [a, b, c, d]" by blast
  from i consider "i = 0" | "i = 1" | "i = 2" | "i = 3" by linarith
  then show ?thesis
  proof cases
    case 1
    with r show ?thesis
      unfolding wp rederive_corners_def Let_def
      by (auto simp: width_walk_def height_walk_def vp1_neighbour_def vp2_neighbour_def
            diagonal_corner_def split: sum.splits)
  next
    case 2
    with r show ?thesis
      unfolding wp rederive_corners_def Let_def
      by (auto simp: width_walk_def height_walk_def vp1_neighbour_def vp2_neighbour_def
            diagonal_corner_def split: sum.splits)
  next
    case 3
    with r show ?thesis
      unfolding wp rederive_corners_def Let_def
      by (auto simp: width_walk_def height_walk_def vp1_neighbour_def vp2_neighbour_def
            diagonal_corner_def split: sum.splits)
  next
    case 4
    with r show ?thesis
      unfolding wp rederive_corners_def Let_def
      by (auto simp: width_walk_def height_walk_def vp1_neighbour_def vp2_neighbour_def
            diagonal_corner_def split: sum.splits)
  qed
qed

lemma apply_perspective_to_layer_frame:
  assumes "apply_perspective_to_layer rewarp l = Inr l'"
  shows "warp_points l' = warp_points l \<and> source_vp l' = source_vp l
       \<and> original_width l' = original_width l \<and> original_height l' = original_height l"
  using assms
  by (auto simp: apply_perspective_to_layer_def split: option.splits if_splits sum.splits)

lemma constrained_corner_drag_result:
  assumes len: "length (warp_points layer) = 4"
    and vps: "source_vp layer = vp1 # vp2 # rest"
    and i: "i < 4"
    and r: "constrained_corner_drag rewarp layer i pos = Some (Inr layer')"
  shows "rederive_corners vp1 vp2 (original_width layer) (original_height layer) i
           ((warp_points layer)[i := pos]) = Inr (warp_points layer')
       \<and> source_vp layer' = source_vp layer
       \<and> original_width layer' = original_width layer
       \<and> original_height layer' = original_height layer"
proof -
  from len have ne: "warp_points layer \<noteq> []" by auto
  from r ne len vps i obtain wp' where
    a: "rederive_corners vp1 vp2 (original_width layer) (original_height layer) i
           ((warp_points layer)[i := pos]) = Inr wp'"
    and b: "apply_perspective_to_layer rewarp (layer\<lparr>warp_points := wp'\<rparr>) = Inr layer'"
    by (auto simp: constrained_corner_drag_def split: sum.splits)
  from apply_perspective_to_layer_frame [OF b] a show ?thesis by simp
qed

text \<open>
  The drag returns when the two walks and the intersection return and the re-warp does.
\<close>

lemma rederive_corners_returns:
  assumes i: "i < 4"
    and g1: "get_point_along_line vp1 (wp ! i) (width_walk i w) = Inr n1"
    and g2: "get_point_along_line vp2 (wp ! i) (height_walk i h) = Inr n2"
    and dg: "(if i < 2 then canvas_line_intersection n1 vp2 n2 vp1
              else canvas_line_intersection n2 vp1 n1 vp2) = Inr c"
  shows "\<exists>wp'. rederive_corners vp1 vp2 w h i wp = Inr wp'"
proof -
  from i consider "i = 0" | "i = 1" | "i = 2" | "i = 3" by linarith
  then show ?thesis
  proof cases
    case 1
    with g1 g2 dg show ?thesis
      by (simp add: rederive_corners_def width_walk_def height_walk_def)
  next
    case 2
    with g1 g2 dg show ?thesis
      by (simp add: rederive_corners_def width_walk_def height_walk_def)
  next
    case 3
    with g1 g2 dg show ?thesis
      by (simp add: rederive_corners_def width_walk_def height_walk_def)
  next
    case 4
    with g1 g2 dg show ?thesis
      by (simp add: rederive_corners_def width_walk_def height_walk_def)
  qed
qed

lemma constrained_corner_drag_returns:
  assumes len: "length (warp_points layer) = 4"
    and vps: "source_vp layer = vp1 # vp2 # rest"
    and i: "i < 4"
    and g1: "get_point_along_line vp1 pos (width_walk i (original_width layer)) = Inr n1"
    and g2: "get_point_along_line vp2 pos (height_walk i (original_height layer)) = Inr n2"
    and dg: "(if i < 2 then canvas_line_intersection n1 vp2 n2 vp1
              else canvas_line_intersection n2 vp1 n1 vp2) = Inr c"
    and rw: "\<forall>img pts. \<exists>res. rewarp img pts = Inr res"
  shows "\<exists>layer'. constrained_corner_drag rewarp layer i pos = Some (Inr layer')"
proof -
  from len have ne: "warp_points layer \<noteq> []" by auto
  have wi: "(warp_points layer)[i := pos] ! i = pos"
    using len i by simp
  from rederive_corners_returns [OF i, of vp1 "(warp_points layer)[i := pos]", unfolded wi,
      OF g1 g2 dg]
  obtain wp' where
    a: "rederive_corners vp1 vp2 (original_width layer) (original_height layer) i
          ((warp_points layer)[i := pos]) = Inr wp'"
    by blast
  then have c: "constrained_corner_drag rewarp layer i pos
      = Some (apply_perspective_to_layer rewarp (layer\<lparr>warp_points := wp'\<rparr>))"
    using ne len vps i by (simp add: constrained_corner_drag_def)
  have "\<exists>layer'. apply_perspective_to_layer rewarp (layer\<lparr>warp_points := wp'\<rparr>) = Inr layer'"
  proof (cases "original_image layer")
    case None
    then show ?thesis by (simp add: apply_perspective_to_layer_def)
  next
    case (Some img)
    from rw obtain q where "rewarp img wp' = Inr q" by blast
    with Some show ?thesis
      by (cases q) (simp add: apply_perspective_to_layer_def)
  qed
  with c show ?thesis by auto
qed

text \<open>
  A walk whose rounding shows: from (0,800) through (0,20) by 50 units the exact point is
  (0, -30); the doubles give \<open>y = -29.999999999999993\<close> and the source stores (0, -29).
\<close>

lemma sqrt_608400: "sqrt 608400 = 780"
  by (rule real_sqrt_unique) simp_all

lemma walk_rounding_example:
  "get_point_along_line (QPoint 0 800) (QPoint 0 20) 50 = Inr (QPoint 0 (- 29))
   \<and> exact_point_along_line (QPoint 0 800) (QPoint 0 20) 50 = (0, - 30)"
proof -
  have ratio: "double_round (5 / 78) = 4619076540892816 / 2 ^ 56"
    by (subst double_round_scaled_down [of _ 56]) (simp_all add: round_half_even_def)
  have px: "double_round (0 * (4619076540892816 / 2 ^ 56)) = 0"
    by (simp add: double_round_zero)
  have x: "double_round (0 + 0) = 0"
    by (simp add: double_round_zero)
  have py: "double_round (- 780 * (4619076540892816 / 2 ^ 56)) = - 7036874417766399 / 2 ^ 47"
    by (subst double_round_scaled_down [of _ 47]) (simp_all add: round_half_even_def)
  have y: "double_round (20 + - 7036874417766399 / 2 ^ 47) = - 8444249301319678 / 2 ^ 48"
    by (subst double_round_scaled_down [of _ 48]) (simp_all add: round_half_even_def)
  have "get_point_along_line (QPoint 0 800) (QPoint 0 20) 50
      = make_QPoint (py_int 0) (py_int (- 8444249301319678 / 2 ^ 48))"
    by (rule get_point_along_line_eval [where dxi = 0 and dyi = "- 780" and s = 608400
          and sf = 608400 and r = 780 and dst = 780 and lenf = 50 and q = "5 / 78"
          and ex = 0 and dx = 0 and ey = 20 and dy = "- 780",
          OF _ _ _ _ _ _ _ _ _ _ _ ratio _ _ px x _ _ py y])
       (simp_all add: float_of_int_def double_round_numeral double_round_neg_numeral
          double_round_zero sqrt_608400)
  then show ?thesis
    by (simp add: make_QPoint_def in_int32_def py_int_def exact_point_along_line_def Let_def
          sqrt_608400)
qed

text \<open>
  The drag of corner 0 to (0, 0) with source vanishing points (65536, 0) and (0, 65536)
  and width and height 16.
\<close>

lemma sqrt_65536_sq: "sqrt 4294967296 = 65536"
  by (rule real_sqrt_unique) simp_all

lemma double_round_4096th: "double_round (1 / 4096) = 1 / 4096"
  using double_round_dyadic [of 1 12] by simp

lemma walk_from_first_vp_example:
  "get_point_along_line (QPoint 65536 0) (QPoint 0 0) 16 = Inr (QPoint (- 16) 0)"
proof -
  have "get_point_along_line (QPoint 65536 0) (QPoint 0 0) 16
      = make_QPoint (py_int (- 16)) (py_int 0)"
    by (rule get_point_along_line_eval [where dxi = "- 65536" and dyi = 0 and s = 4294967296
          and sf = 4294967296 and r = 65536 and dst = 65536 and lenf = 16 and q = "1 / 4096"
          and ratio = "1 / 4096" and ex = 0 and dx = "- 65536" and px = "- 16"
          and ey = 0 and dy = 0 and py = 0])
       (simp_all add: float_of_int_def double_round_numeral double_round_neg_numeral
          double_round_zero sqrt_65536_sq double_round_4096th)
  then show ?thesis by (simp add: make_QPoint_def in_int32_def py_int_def)
qed

lemma walk_from_second_vp_example:
  "get_point_along_line (QPoint 0 65536) (QPoint 0 0) 16 = Inr (QPoint 0 (- 16))"
proof -
  have "get_point_along_line (QPoint 0 65536) (QPoint 0 0) 16
      = make_QPoint (py_int 0) (py_int (- 16))"
    by (rule get_point_along_line_eval [where dxi = 0 and dyi = "- 65536" and s = 4294967296
          and sf = 4294967296 and r = 65536 and dst = 65536 and lenf = 16 and q = "1 / 4096"
          and ratio = "1 / 4096" and ex = 0 and dx = 0 and px = 0
          and ey = 0 and dy = "- 65536" and py = "- 16"])
       (simp_all add: float_of_int_def double_round_numeral double_round_neg_numeral
          double_round_zero sqrt_65536_sq double_round_4096th)
  then show ?thesis by (simp add: make_QPoint_def in_int32_def py_int_def)
qed

lemma diagonal_corner_example:
  "canvas_line_intersection (QPoint (- 16) 0) (QPoint 0 65536) (QPoint 0 (- 16)) (QPoint 65536 0)
     = Inr (QPoint (- 16) (- 16))"
proof -
  have t: "double_round (- (1 / 4095)) = - 4504699407499280 / 2 ^ 64"
    by (subst double_round_scaled_down [of _ 64]) (simp_all add: round_half_even_def)
  have px: "double_round (- 4504699407499280 / 2 ^ 64 * 16) = - 4504699407499280 / 2 ^ 60"
    using double_round_dyadic [of "- 4504699407499280" 60] by simp
  have x: "double_round (- 16 + - 4504699407499280 / 2 ^ 60) = - 4504699407499280 / 2 ^ 48"
    by (subst double_round_scaled_down [of _ 48]) (simp_all add: round_half_even_def)
  have py: "double_round (- 4504699407499280 / 2 ^ 64 * 65536) = - 4504699407499280 / 2 ^ 48"
    using double_round_dyadic [of "- 4504699407499280" 48] by simp
  have y: "double_round (0 + - 4504699407499280 / 2 ^ 48) = - 4504699407499280 / 2 ^ 48"
    using double_round_dyadic [of "- 4504699407499280" 48] by simp
  have "canvas_line_intersection (QPoint (- 16) 0) (QPoint 0 65536) (QPoint 0 (- 16)) (QPoint 65536 0)
      = make_QPoint (py_int (- 4504699407499280 / 2 ^ 48)) (py_int (- 4504699407499280 / 2 ^ 48))"
    by (rule line_intersection_eval(2) [where den = "- 4294967040" and tn = 1048832
          and q = "- (1 / 4095)" and ?x1.0 = "- 16" and dx = 16 and ?y1.0 = 0 and dy = 65536,
          OF _ _ _ _ t _ _ px x _ _ py y])
       (simp_all add: denominator_def float_of_int_def double_round_numeral
          double_round_neg_numeral double_round_zero)
  then show ?thesis by (simp add: make_QPoint_def in_int32_def py_int_def)
qed

lemma square_gives_far_points:
  "calculate_two_point_perspective g [QPoint 0 0, QPoint (- 16) 0, QPoint (- 16) (- 16), QPoint 0 (- 16)]
   = Inr ([QPoint 10000 10000, QPoint 10000 10000],
          g\<lparr>primary_vp := [QPoint 10000 10000, QPoint 10000 10000]\<rparr>)"
  by (simp add: calculate_two_point_perspective_def grid_line_intersection_def Let_def valid_vp_def)

lemma constrained_drag_example:
  "constrained_corner_drag rewarp_unchanged
     ((new_layer ''pasted'')\<lparr>warp_points := [QPoint 10 10, QPoint 110 10, QPoint 110 110, QPoint 10 110],
        source_vp := [QPoint 65536 0, QPoint 0 65536], original_width := 16, original_height := 16\<rparr>)
     0 (QPoint 0 0)
   = Some (Inr ((new_layer ''pasted'')\<lparr>warp_points := [QPoint 0 0, QPoint (- 16) 0, QPoint (- 16) (- 16), QPoint 0 (- 16)],
        source_vp := [QPoint 65536 0, QPoint 0 65536], original_width := 16, original_height := 16\<rparr>))"
  by (simp add: constrained_corner_drag_def rederive_corners_def Let_def new_layer_def
        walk_from_first_vp_example walk_from_second_vp_example diagonal_corner_example
        apply_perspective_to_layer_def)

text \<open>
  C1, as stated, fails.  Take a layer with source vanishing points (65536, 0) and (0, 65536)
  and width and height 16, and drag corner 0 to (0, 0).  The two walks give (-16, 0) and
  (0, -16) exactly; the two lines toward the opposite vanishing points meet near
  (-16.004, -16.004), which is stored as (-16, -16).  The resulting quadrilateral is an
  axis-parallel square: both pairs of opposite edges are parallel, and the vanishing points
  recomputed from it are the far point (10000, 10000) twice, not the pair held in
  \<^verbatim>\<open>source_vp\<close>.
\<close>

theorem constrained_drag_changes_vanishing_points_counterexample:
  "constrained_corner_drag rewarp_unchanged
     ((new_layer ''pasted'')\<lparr>warp_points := [QPoint 10 10, QPoint 110 10, QPoint 110 110, QPoint 10 110],
        source_vp := [QPoint 65536 0, QPoint 0 65536], original_width := 16, original_height := 16\<rparr>)
     0 (QPoint 0 0)
   = Some (Inr ((new_layer ''pasted'')\<lparr>warp_points := [QPoint 0 0, QPoint (- 16) 0, QPoint (- 16) (- 16), QPoint 0 (- 16)],
        source_vp := [QPoint 65536 0, QPoint 0 65536], original_width := 16, original_height := 16\<rparr>))
   \<and> calculate_two_point_perspective \<lparr>enabled = True, primary_vp = []\<rparr>
        [QPoint 0 0, QPoint (- 16) 0, QPoint (- 16) (- 16), QPoint 0 (- 16)]
       = Inr ([QPoint 10000 10000, QPoint 10000 10000],
              \<lparr>enabled = True, primary_vp = [QPoint 10000 10000, QPoint 10000 10000]\<rparr>)
   \<and> [QPoint 10000 10000, QPoint 10000 10000] \<noteq> [QPoint 65536 0, QPoint 0 65536]"
  by (simp add: constrained_drag_example square_gives_far_points)

text \<open>
  A drag that raises: source vanishing points (-2048, 0) and (0, -4096), width 2200 and
  height 3813, corner 0 dragged to (0, 0).  The walks give (2200, 0) and (0, 3813); the
  lines from them to the opposite vanishing points have the denominator -8 and meet at
  (4454348800, 8293183488), which a \<^verbatim>\<open>QPoint\<close> cannot hold.
\<close>

lemma double_round_275_256: "double_round (275 / 256) = 275 / 256"
  using double_round_dyadic [of 275 8] by simp

lemma double_round_3813_4096: "double_round (3813 / 4096) = 3813 / 4096"
  using double_round_dyadic [of 3813 12] by simp

lemma sqrt_2048_sq: "sqrt 4194304 = 2048"
  by (rule real_sqrt_unique) simp_all

lemma sqrt_4096_sq: "sqrt 16777216 = 4096"
  by (rule real_sqrt_unique) simp_all

lemma wide_walk_example:
  "get_point_along_line (QPoint (- 2048) 0) (QPoint 0 0) 2200 = Inr (QPoint 2200 0)"
proof -
  have "get_point_along_line (QPoint (- 2048) 0) (QPoint 0 0) 2200
      = make_QPoint (py_int 2200) (py_int 0)"
    by (rule get_point_along_line_eval [where dxi = 2048 and dyi = 0 and s = 4194304
          and sf = 4194304 and r = 2048 and dst = 2048 and lenf = 2200 and q = "275 / 256"
          and ratio = "275 / 256" and ex = 0 and dx = 2048 and px = 2200
          and ey = 0 and dy = 0 and py = 0])
       (simp_all add: float_of_int_def double_round_numeral double_round_neg_numeral
          double_round_zero sqrt_2048_sq double_round_275_256)
  then show ?thesis by (simp add: make_QPoint_def in_int32_def py_int_def)
qed

lemma high_walk_example:
  "get_point_along_line (QPoint 0 (- 4096)) (QPoint 0 0) 3813 = Inr (QPoint 0 3813)"
proof -
  have "get_point_along_line (QPoint 0 (- 4096)) (QPoint 0 0) 3813
      = make_QPoint (py_int 0) (py_int 3813)"
    by (rule get_point_along_line_eval [where dxi = 0 and dyi = 4096 and s = 16777216
          and sf = 16777216 and r = 4096 and dst = 4096 and lenf = 3813 and q = "3813 / 4096"
          and ratio = "3813 / 4096" and ex = 0 and dx = 0 and px = 0
          and ey = 0 and dy = 4096 and py = 3813])
       (simp_all add: float_of_int_def double_round_numeral double_round_neg_numeral
          double_round_zero sqrt_4096_sq double_round_3813_4096)
  then show ?thesis by (simp add: make_QPoint_def in_int32_def py_int_def)
qed

lemma far_diagonal_example:
  "canvas_line_intersection (QPoint 2200 0) (QPoint 0 (- 4096)) (QPoint 0 3813) (QPoint (- 2048) 0)
     = Inl OverflowError"
proof -
  have "canvas_line_intersection (QPoint 2200 0) (QPoint 0 (- 4096)) (QPoint 0 3813) (QPoint (- 2048) 0)
      = make_QPoint (py_int 4454348800) (py_int 8293183488)"
    by (rule line_intersection_eval(2) [where den = "- 8" and tn = 16197624
          and q = "- 2024703" and t = "- 2024703" and ?x1.0 = 2200 and dx = "- 2200"
          and px = 4454346600 and ?y1.0 = 0 and dy = "- 4096" and py = 8293183488])
       (simp_all add: denominator_def float_of_int_def double_round_numeral
          double_round_neg_numeral double_round_zero)
  then show ?thesis by (simp add: make_QPoint_def in_int32_def py_int_def)
qed

lemma constrained_drag_overflow_example:
  "constrained_corner_drag rewarp
     ((new_layer ''pasted'')\<lparr>warp_points := [QPoint 10 10, QPoint 110 10, QPoint 110 110, QPoint 10 110],
        source_vp := [QPoint (- 2048) 0, QPoint 0 (- 4096)],
        original_width := 2200, original_height := 3813\<rparr>)
     0 (QPoint 0 0)
   = Some (Inl OverflowError)"
  by (simp add: constrained_corner_drag_def rederive_corners_def Let_def new_layer_def
        wide_walk_example high_walk_example far_diagonal_example)

text \<open>
  With four warp points, two source vanishing points and an index from 0 to 3 the
  constrained branch is taken and the unpacking and the indexed assignment succeed.  An
  exception can only come from the \<^verbatim>\<open>QPoint\<close> constructor, from \<^verbatim>\<open>np.sqrt\<close> or from the
  re-warp.
\<close>

lemma get_point_along_line_errors:
  "get_point_along_line start endp len = Inl e \<Longrightarrow> e = OverflowError \<or> e = TypeError"
  by (auto simp: get_point_along_line_def Let_def make_QPoint_def split: if_splits)

lemma rederive_corners_errors:
  assumes "rederive_corners vp1 vp2 w h i wp = Inl e"
  shows "e = OverflowError \<or> e = TypeError"
  using assms unfolding rederive_corners_def Let_def
  by (auto split: if_splits sum.splits
        dest: get_point_along_line_errors line_intersection_only_overflows(2))

lemma constrained_corner_drag_taken:
  assumes len: "length (warp_points layer) = 4"
    and vps: "source_vp layer = vp1 # vp2 # rest"
    and i: "i < 4"
  shows "\<exists>res. constrained_corner_drag rewarp layer i pos = Some res
           \<and> (\<forall>e. res = Inl e \<longrightarrow>
                 e = OverflowError \<or> e = TypeError \<or> (\<exists>img pts. rewarp img pts = Inl e))"
proof -
  from len have ne: "warp_points layer \<noteq> []" by auto
  show ?thesis
  proof (cases "rederive_corners vp1 vp2 (original_width layer) (original_height layer) i
                  ((warp_points layer)[i := pos])")
    case (Inl e)
    then have "constrained_corner_drag rewarp layer i pos = Some (Inl e)"
      using ne len vps i by (simp add: constrained_corner_drag_def)
    with rederive_corners_errors [OF Inl] show ?thesis by auto
  next
    case (Inr wp')
    then have c: "constrained_corner_drag rewarp layer i pos
        = Some (apply_perspective_to_layer rewarp (layer\<lparr>warp_points := wp'\<rparr>))"
      using ne len vps i by (simp add: constrained_corner_drag_def)
    have "\<forall>e. apply_perspective_to_layer rewarp (layer\<lparr>warp_points := wp'\<rparr>) = Inl e \<longrightarrow>
            (\<exists>img pts. rewarp img pts = Inl e)"
      by (auto simp: apply_perspective_to_layer_def split: option.splits if_splits sum.splits)
    with c show ?thesis by auto
  qed
qed

lemma walk_length_bound:
  "in_int32 w \<Longrightarrow> \<bar>width_walk i w\<bar> \<le> 2147483648 \<and> \<bar>height_walk i w\<bar> \<le> 2147483648"
  by (auto simp: in_int32_def width_walk_def height_walk_def)

text \<open>
  C1, amended.  Take a layer with four warp points and two source vanishing points, all
  points and the two stored sizes within 32 bits, and a constrained drag of corner \<open>i\<close>
  (0 to 3) to \<open>pos\<close> that returns.  The result has four warp points, the same source
  vanishing points, and corner \<open>i\<close> at \<open>pos\<close>.  The neighbour toward the first vanishing
  point is near (less than \<open>1 + 1/100000\<close> away in each coordinate from) the point at the
  signed distance \<^verbatim>\<open>original_width\<close> from \<open>pos\<close> on the line through the first vanishing
  point and \<open>pos\<close>, positive away from the vanishing point for corners 0 and 3 and toward
  it for corners 1 and 2; that point satisfies the equation of the line exactly.
  Likewise the neighbour toward the second vanishing point, with \<^verbatim>\<open>original_height\<close>,
  positive for corners 0 and 1.  The diagonal corner is near the exact intersection of the
  line through the first neighbour and the second vanishing point with the line through
  the second neighbour and the first vanishing point, or, when these two lines are
  parallel, it is the vanishing point that ends the first line passed to
  \<^verbatim>\<open>line_intersection\<close>.  Nothing is said about the vanishing points recomputed from the
  stored corners, nor about the drags that raise.
\<close>

theorem constrained_drag_places_corners_near_vp_lines:
  assumes len: "length (warp_points layer) = 4"
    and vps: "source_vp layer = vp1 # vp2 # rest"
    and i: "i < 4"
    and vpos: "valid_QPoint pos" and v1: "valid_QPoint vp1" and v2: "valid_QPoint vp2"
    and w: "in_int32 (original_width layer)" and h: "in_int32 (original_height layer)"
    and r: "constrained_corner_drag rewarp layer i pos = Some (Inr layer')"
  shows "length (warp_points layer') = 4
       \<and> source_vp layer' = source_vp layer
       \<and> warp_points layer' ! i = pos
       \<and> near_point (warp_points layer' ! vp1_neighbour i)
           (exact_point_along_line vp1 pos (width_walk i (original_width layer)))
       \<and> line_residual vp1 pos
           (fst (exact_point_along_line vp1 pos (width_walk i (original_width layer))))
           (snd (exact_point_along_line vp1 pos (width_walk i (original_width layer)))) = 0
       \<and> near_point (warp_points layer' ! vp2_neighbour i)
           (exact_point_along_line vp2 pos (height_walk i (original_height layer)))
       \<and> line_residual vp2 pos
           (fst (exact_point_along_line vp2 pos (height_walk i (original_height layer))))
           (snd (exact_point_along_line vp2 pos (height_walk i (original_height layer)))) = 0
       \<and> (if i < 2
          then diagonal_placed (warp_points layer' ! vp1_neighbour i) vp2
                 (warp_points layer' ! vp2_neighbour i) vp1
                 (warp_points layer' ! diagonal_corner i)
          else diagonal_placed (warp_points layer' ! vp2_neighbour i) vp1
                 (warp_points layer' ! vp1_neighbour i) vp2
                 (warp_points layer' ! diagonal_corner i))"
proof -
  define wp where "wp = (warp_points layer)[i := pos]"
  have wl: "length wp = 4" and wi: "wp ! i = pos"
    using len i by (simp_all add: wp_def)
  note res = constrained_corner_drag_result [OF len vps i r, folded wp_def]
  from rederive_corners_result [OF wl i conjunct1 [OF res]] obtain n1 n2 c where
    g1: "get_point_along_line vp1 pos (width_walk i (original_width layer)) = Inr n1"
    and g2: "get_point_along_line vp2 pos (height_walk i (original_height layer)) = Inr n2"
    and dg: "(if i < 2 then canvas_line_intersection n1 vp2 n2 vp1
              else canvas_line_intersection n2 vp1 n1 vp2) = Inr c"
    and l': "length (warp_points layer') = 4"
    and pi: "warp_points layer' ! i = pos"
    and e1: "warp_points layer' ! vp1_neighbour i = n1"
    and e2: "warp_points layer' ! vp2_neighbour i = n2"
    and ec: "warp_points layer' ! diagonal_corner i = c"
    unfolding wi by blast
  note b1 = walk_length_bound [OF w, of i, THEN conjunct1]
  note b2 = walk_length_bound [OF h, of i, THEN conjunct2]
  note n1 = get_point_along_line_near [OF v1 vpos b1 g1]
  note n2 = get_point_along_line_near [OF v2 vpos b2 g2]
  have d: "if i < 2 then diagonal_placed n1 vp2 n2 vp1 c else diagonal_placed n2 vp1 n1 vp2 c"
  proof (cases "i < 2")
    case True
    with dg have "canvas_line_intersection n1 vp2 n2 vp1 = Inr c" by simp
    from canvas_line_intersection_placed [OF conjunct2 [OF n1] v2 this] True
    show ?thesis by simp
  next
    case False
    with dg have "canvas_line_intersection n2 vp1 n1 vp2 = Inr c" by simp
    from canvas_line_intersection_placed [OF conjunct2 [OF n2] v1 this] False
    show ?thesis by simp
  qed
  show ?thesis
    unfolding e1 e2 ec
    using l' res pi n1 n2 d exact_point_on_line [of vp1 pos] exact_point_on_line [of vp2 pos]
    by simp
qed

theorem constrained_drag_places_corners_near_vp_lines_witness:
  "constrained_corner_drag rewarp_unchanged
     ((new_layer ''pasted'')\<lparr>warp_points := [QPoint 10 10, QPoint 110 10, QPoint 110 110, QPoint 10 110],
        source_vp := [QPoint 65536 0, QPoint 0 65536], original_width := 16, original_height := 16\<rparr>)
     0 (QPoint 0 0)
   = Some (Inr ((new_layer ''pasted'')\<lparr>warp_points := [QPoint 0 0, QPoint (- 16) 0, QPoint (- 16) (- 16), QPoint 0 (- 16)],
        source_vp := [QPoint 65536 0, QPoint 0 65536], original_width := 16, original_height := 16\<rparr>))
   \<and> valid_QPoint (QPoint 0 0) \<and> valid_QPoint (QPoint 65536 0) \<and> valid_QPoint (QPoint 0 65536)
   \<and> in_int32 16
   \<and> near_point (QPoint (- 16) 0) (exact_point_along_line (QPoint 65536 0) (QPoint 0 0) 16)
   \<and> line_residual (QPoint 65536 0) (QPoint 0 0)
       (fst (exact_point_along_line (QPoint 65536 0) (QPoint 0 0) 16))
       (snd (exact_point_along_line (QPoint 65536 0) (QPoint 0 0) 16)) = 0
   \<and> near_point (QPoint 0 (- 16)) (exact_point_along_line (QPoint 0 65536) (QPoint 0 0) 16)
   \<and> line_residual (QPoint 0 65536) (QPoint 0 0)
       (fst (exact_point_along_line (QPoint 0 65536) (QPoint 0 0) 16))
       (snd (exact_point_along_line (QPoint 0 65536) (QPoint 0 0) 16)) = 0
   \<and> diagonal_placed (QPoint (- 16) 0) (QPoint 0 65536) (QPoint 0 (- 16)) (QPoint 65536 0)
       (QPoint (- 16) (- 16))"
  using constrained_drag_places_corners_near_vp_lines
          [where layer = "(new_layer ''pasted'')\<lparr>warp_points := [QPoint 10 10, QPoint 110 10, QPoint 110 110, QPoint 10 110],
               source_vp := [QPoint 65536 0, QPoint 0 65536], original_width := 16, original_height := 16\<rparr>"
             and ?vp1.0 = "QPoint 65536 0" and ?vp2.0 = "QPoint 0 65536" and rest = "[]" and i = 0
             and pos = "QPoint 0 0" and rewarp = rewarp_unchanged
             and layer' = "(new_layer ''pasted'')\<lparr>warp_points := [QPoint 0 0, QPoint (- 16) 0, QPoint (- 16) (- 16), QPoint 0 (- 16)],
               source_vp := [QPoint 65536 0, QPoint 0 65536], original_width := 16, original_height := 16\<rparr>"]
        constrained_drag_example
  by (simp add: valid_QPoint_def in_int32_def vp1_neighbour_def vp2_neighbour_def
        diagonal_corner_def width_walk_def height_walk_def)

end
